theory Spec2Isabelle
  imports Complex_Main "HOL-Library.Sublist"
begin

section \<open>Strings and values of the JavaScript runtime\<close>

text \<open>
  The program is TypeScript running on Node.js. A JavaScript string is modelled by the
  bytes of its UTF-8 encoding, as a \<open>string\<close> (a list of 8-bit characters): an ASCII
  character is one element of the list, any other character is the two to four bytes of
  its encoding. Splitting at an ASCII separator, replacing ASCII characters and testing
  for ASCII letters and digits work byte by byte on the encoding as they work character
  by character on the JavaScript string. What depends on the Unicode character tables or
  on the UTF-16 code units of a string (\<open>toLowerCase\<close>, the indexed characters of a
  string) is taken from the runtime, see \<open>js_runtime\<close> below. Strings are taken to be
  well formed (no surrogate without its pair).
\<close>

definition nl :: char where
  "nl = CHR 0x0A"

definition quote :: char where
  "quote = CHR 0x27"

definition backslash :: char where
  "backslash = CHR 0x5C"

definition upper_chars :: string where
  "upper_chars = ''ABCDEFGHIJKLMNOPQRSTUVWXYZ''"

definition lower_chars :: string where
  "lower_chars = ''abcdefghijklmnopqrstuvwxyz''"

definition digit_chars :: string where
  "digit_chars = ''0123456789''"

text \<open>The other case of an ASCII letter; every other byte is left as it is.\<close>

definition to_lower :: "char \<Rightarrow> char" where
  "to_lower c = (case map_of (zip upper_chars lower_chars) c of Some d \<Rightarrow> d | None \<Rightarrow> c)"

definition to_upper :: "char \<Rightarrow> char" where
  "to_upper c = (case map_of (zip lower_chars upper_chars) c of Some d \<Rightarrow> d | None \<Rightarrow> c)"

text \<open>
  White space as \<open>String.prototype.trim\<close> and \<open>Number\<close> strip it: the characters U+0009 to
  U+000D, U+0020, U+00A0, U+1680, U+2000 to U+200A, U+2028, U+2029, U+202F, U+205F, U+3000
  and U+FEFF, each as the bytes of its encoding.
\<close>

definition white_space :: "string list" where
  "white_space =
     [[CHR 0x09], [CHR 0x0A], [CHR 0x0B], [CHR 0x0C], [CHR 0x0D], [CHR 0x20],
      [CHR 0xC2, CHR 0xA0],
      [CHR 0xE1, CHR 0x9A, CHR 0x80],
      [CHR 0xE2, CHR 0x80, CHR 0x80], [CHR 0xE2, CHR 0x80, CHR 0x81],
      [CHR 0xE2, CHR 0x80, CHR 0x82], [CHR 0xE2, CHR 0x80, CHR 0x83],
      [CHR 0xE2, CHR 0x80, CHR 0x84], [CHR 0xE2, CHR 0x80, CHR 0x85],
      [CHR 0xE2, CHR 0x80, CHR 0x86], [CHR 0xE2, CHR 0x80, CHR 0x87],
      [CHR 0xE2, CHR 0x80, CHR 0x88], [CHR 0xE2, CHR 0x80, CHR 0x89],
      [CHR 0xE2, CHR 0x80, CHR 0x8A],
      [CHR 0xE2, CHR 0x80, CHR 0xA8], [CHR 0xE2, CHR 0x80, CHR 0xA9],
      [CHR 0xE2, CHR 0x80, CHR 0xAF],
      [CHR 0xE2, CHR 0x81, CHR 0x9F],
      [CHR 0xE3, CHR 0x80, CHR 0x80],
      [CHR 0xEF, CHR 0xBB, CHR 0xBF]]"

text \<open>\<open>strip_start ws s\<close> takes the words of \<open>ws\<close> off the front of \<open>s\<close> for as long as one of
  them is there. \<open>trim\<close> takes the white space off the front and then, reading the string
  backwards, off the end.\<close>

function strip_start :: "string list \<Rightarrow> string \<Rightarrow> string" where
  "strip_start ws s =
     (case find (\<lambda>w. w \<noteq> [] \<and> prefix w s) ws of
        None \<Rightarrow> s
      | Some w \<Rightarrow> strip_start ws (drop (length w) s))"
  by pat_completeness auto
termination
proof (relation "measure (\<lambda>(ws, s). length s)")
  show "wf (measure (\<lambda>(ws, s). length s))" by simp
next
  fix ws :: "string list" and s w :: string
  assume "find (\<lambda>w. w \<noteq> [] \<and> prefix w s) ws = Some w"
  then have "w \<noteq> []" and "prefix w s" by (auto simp: find_Some_iff)
  then have "length (drop (length w) s) < length s" by (cases w) (auto simp: prefix_def)
  then show "((ws, drop (length w) s), (ws, s)) \<in> measure (\<lambda>(ws, s). length s)" by simp
qed

declare strip_start.simps [simp del]

definition trim :: "string \<Rightarrow> string" where
  "trim s = rev (strip_start (map rev white_space) (rev (strip_start white_space s)))"

text \<open>\<open>s.split(',')\<close>: the fragments between the separators; the empty string gives one
  empty fragment.\<close>

fun split_on :: "char \<Rightarrow> string \<Rightarrow> string list" where
  "split_on sep [] = [[]]"
| "split_on sep (c # cs) =
     (if c = sep then [] # split_on sep cs
      else (case split_on sep cs of
              [] \<Rightarrow> [[c]]
            | f # fs \<Rightarrow> (c # f) # fs))"

text \<open>\<open>xs.join(sep)\<close> on strings.\<close>

fun join :: "string \<Rightarrow> string list \<Rightarrow> string" where
  "join sep [] = []"
| "join sep [x] = x"
| "join sep (x # y # ys) = x @ sep @ join sep (y # ys)"

text \<open>\<open>s.replace(/c/g, r)\<close> for a single character \<open>c\<close>.\<close>

definition replace_char :: "char \<Rightarrow> string \<Rightarrow> string \<Rightarrow> string" where
  "replace_char c r s = concat (map (\<lambda>x. if x = c then r else [x]) s)"

text \<open>\<open>String(n)\<close> for a natural number and \<open>s.padStart(n, '0')\<close>.\<close>

definition digit_of :: "nat \<Rightarrow> char" where
  "digit_of d = digit_chars ! d"

fun string_of_nat :: "nat \<Rightarrow> string" where
  "string_of_nat n =
     (if n < 10 then [digit_of n] else string_of_nat (n div 10) @ [digit_of (n mod 10)])"

declare string_of_nat.simps [simp del]

definition padStart :: "nat \<Rightarrow> char \<Rightarrow> string \<Rightarrow> string" where
  "padStart n c s = replicate (n - length s) c @ s"

subsection \<open>Values\<close>

text \<open>
  A JavaScript number is an IEEE double. A finite one is carried as its value, a rational
  number, with \<open>Fin 0\<close> for the positive and \<open>NegZero\<close> for the negative zero; \<open>Infinity b\<close>
  is negative when \<open>b\<close> holds.
\<close>

datatype js_num = NaN | Infinity bool | NegZero | Fin rat

datatype jsval =
    JUndefined
  | JNull
  | JBool bool
  | JNum js_num
  | JStr string
  | JArr "jsval list"
  | JObj "(string \<times> jsval) list"

text \<open>Thrown values: \<open>new Error(message)\<close> and the \<open>TypeError\<close> of the runtime (with the
  message Node.js gives it).\<close>

datatype error = Error string | TypeError string

definition message :: "error \<Rightarrow> string" where
  "message e = (case e of Error m \<Rightarrow> m | TypeError m \<Rightarrow> m)"

text \<open>
  What the runtime library computes and the model takes as given: the decimal text of a
  number (\<open>String(n)\<close>), \<open>JSON.stringify(v, null, indent)\<close>, \<open>path.join\<close>,
  \<open>String.prototype.toLowerCase\<close>, and the code units of a string, each as a string of
  its own (the elements that \<open>Object.entries\<close> finds in a string).
\<close>

record js_runtime =
  number_toString :: "js_num \<Rightarrow> string"
  json_stringify :: "jsval \<Rightarrow> nat \<Rightarrow> string"
  path_join :: "string \<Rightarrow> string \<Rightarrow> string"
  toLowerCase :: "string \<Rightarrow> string"
  string_units :: "string \<Rightarrow> string list"

text \<open>Truthiness, as \<open>!x\<close>, \<open>x || y\<close> and \<open>if (x)\<close> test it.\<close>

fun truthy :: "jsval \<Rightarrow> bool" where
  "truthy JUndefined = False"
| "truthy JNull = False"
| "truthy (JBool b) = b"
| "truthy (JNum NaN) = False"
| "truthy (JNum (Infinity b)) = True"
| "truthy (JNum NegZero) = False"
| "truthy (JNum (Fin r)) = (r \<noteq> 0)"
| "truthy (JStr s) = (s \<noteq> [])"
| "truthy (JArr xs) = True"
| "truthy (JObj kvs) = True"

text \<open>
  \<open>String(v)\<close>, which is also what a template literal applies. An array joins its elements
  with commas, \<open>null\<close> and \<open>undefined\<close> elements giving the empty string. An object gives
  \<open>[object Object]\<close> unless it has a property of its own named \<open>toString\<close>: a value read
  from JSON is never callable, the inherited \<open>valueOf\<close> returns the object, and the
  conversion throws.
\<close>

fun toString :: "js_runtime \<Rightarrow> jsval \<Rightarrow> error + string"
  and join_elements :: "js_runtime \<Rightarrow> jsval list \<Rightarrow> error + string"
  and element_string :: "js_runtime \<Rightarrow> jsval \<Rightarrow> error + string" where
  "toString rt JUndefined = Inr ''undefined''"
| "toString rt JNull = Inr ''null''"
| "toString rt (JBool b) = Inr (if b then ''true'' else ''false'')"
| "toString rt (JNum n) = Inr (number_toString rt n)"
| "toString rt (JStr s) = Inr s"
| "toString rt (JArr xs) = join_elements rt xs"
| "toString rt (JObj kvs) =
     (if ''toString'' \<in> set (map fst kvs)
      then Inl (TypeError ''Cannot convert object to primitive value'')
      else Inr ''[object Object]'')"
| "join_elements rt [] = Inr []"
| "join_elements rt [x] = element_string rt x"
| "join_elements rt (x # y # ys) =
     (case element_string rt x of
        Inl e \<Rightarrow> Inl e
      | Inr s \<Rightarrow> (case join_elements rt (y # ys) of
                    Inl e \<Rightarrow> Inl e
                  | Inr t \<Rightarrow> Inr (s @ '','' @ t)))"
| "element_string rt JUndefined = Inr []"
| "element_string rt JNull = Inr []"
| "element_string rt v = toString rt v"

subsection \<open>Objects\<close>

text \<open>
  An object is the list of its own properties in the order \<open>Object.keys\<close> and
  \<open>Object.entries\<close> enumerate them: the keys that are array indices (canonical decimal
  numerals below \<open>2^32 - 1\<close>) in ascending order first, then the other keys in the order
  they were created. \<open>obj_put\<close> is the assignment \<open>o[k] = v\<close>.
\<close>

definition is_digit :: "char \<Rightarrow> bool" where
  "is_digit c \<longleftrightarrow> c \<in> set digit_chars"

definition digit_value :: "char \<Rightarrow> nat" where
  "digit_value c = (case map_of (zip digit_chars [0, 1, 2, 3, 4, 5, 6, 7, 8, 9]) c of Some d \<Rightarrow> d | None \<Rightarrow> 0)"

definition nat_of_digits :: "string \<Rightarrow> nat" where
  "nat_of_digits s = foldl (\<lambda>n c. 10 * n + digit_value c) 0 s"

definition is_array_index :: "string \<Rightarrow> bool" where
  "is_array_index k \<longleftrightarrow>
     k \<noteq> [] \<and> list_all is_digit k \<and> (k = ''0'' \<or> hd k \<noteq> CHR ''0'') \<and>
     nat_of_digits k < 4294967295"

definition obj_get :: "(string \<times> 'a) list \<Rightarrow> string \<Rightarrow> 'a option" where
  "obj_get obj k = map_of obj k"

fun obj_insert_index :: "string \<Rightarrow> 'a \<Rightarrow> (string \<times> 'a) list \<Rightarrow> (string \<times> 'a) list" where
  "obj_insert_index k v [] = [(k, v)]"
| "obj_insert_index k v ((k', v') # rest) =
     (if is_array_index k' \<and> nat_of_digits k' < nat_of_digits k
      then (k', v') # obj_insert_index k v rest
      else (k, v) # (k', v') # rest)"

definition obj_put :: "string \<Rightarrow> 'a \<Rightarrow> (string \<times> 'a) list \<Rightarrow> (string \<times> 'a) list" where
  "obj_put k v obj =
     (if k \<in> set (map fst obj) then map (\<lambda>(k', v'). if k' = k then (k', v) else (k', v')) obj
      else if is_array_index k then obj_insert_index k v obj
      else obj @ [(k, v)])"

text \<open>The names every object inherits from \<open>Object.prototype\<close>; reading one of them from an
  object that has no such property of its own gives the inherited value, which is truthy
  and is not an array.\<close>

definition object_prototype_keys :: "string list" where
  "object_prototype_keys =
     [''constructor'', ''__defineGetter__'', ''__defineSetter__'', ''hasOwnProperty'',
      ''__lookupGetter__'', ''__lookupSetter__'', ''isPrototypeOf'', ''propertyIsEnumerable'',
      ''toString'', ''valueOf'', ''__proto__'', ''toLocaleString'']"

section \<open>The test code generator\<close>

subsection \<open>Data\<close>

record test_case =
  tc_id :: string
  tc_name :: string
  tc_description :: "string option"
  tc_conditions :: "(string \<times> jsval) list"
  tc_actions :: "string list"
  tc_expected_results :: "string list"
  tc_priority :: "string option"
  tc_tags :: "string list option"

text \<open>A step as the generator receives it at run time. \<open>ws_value\<close>, \<open>as_body\<close> and
  \<open>as_expected_body\<close> are \<open>JUndefined\<close> when the property is absent.\<close>

record web_step =
  ws_action :: string
  ws_selector :: "string option"
  ws_target :: "string option"
  ws_value :: jsval
  ws_description :: string

record api_step =
  as_method :: string
  as_endpoint :: string
  as_headers :: "(string \<times> string) list option"
  as_body :: jsval
  as_expected_status :: "js_num option"
  as_expected_body :: jsval
  as_description :: string
  as_save_response :: "string option"

datatype step = WebStep web_step | ApiStep api_step

datatype steps_type = Web | Api

record test_steps =
  test_case_id :: string
  steps_kind :: steps_type
  steps :: "step list"

datatype framework = Playwright | ApiFramework | Both

datatype language = Typescript | Javascript

record generated_file =
  gf_path :: string
  gf_content :: string
  gf_test_count :: nat
  gf_framework :: framework

record generation_request =
  test_cases :: "test_case list"
  request_steps :: "test_steps list"
  request_framework :: framework
  output_path :: string
  request_language :: "language option"
  request_style :: "string option"

record generation_result =
  files_generated :: "generated_file list"
  total_tests :: nat
  success :: bool
  errors :: "string list option"

text \<open>The file system the generator writes to: each call takes the state of the file
  system and returns the new one, with the message of the error it rejects with, if any.\<close>

record 'st file_system =
  mkdir :: "string \<Rightarrow> 'st \<Rightarrow> string option \<times> 'st"
  writeFile :: "string \<Rightarrow> string \<Rightarrow> 'st \<Rightarrow> string option \<times> 'st"

subsection \<open>Escaping and file names\<close>

text \<open>\<open>escapeString\<close>: \<open>str.replace(/'/g, "\\'").replace(/\n/g, '\\n')\<close>.\<close>

definition escapeString :: "string \<Rightarrow> string" where
  "escapeString str = replace_char nl [backslash, CHR ''n''] (replace_char quote [backslash, quote] str)"

definition is_lower_alnum :: "char \<Rightarrow> bool" where
  "is_lower_alnum c \<longleftrightarrow> c \<in> set lower_chars \<or> c \<in> set digit_chars"

text \<open>\<open>.replace(/[^a-z0-9]+/g, '-')\<close>: every maximal run of other characters becomes one hyphen.\<close>

fun collapse_from :: "bool \<Rightarrow> string \<Rightarrow> string" where
  "collapse_from in_run [] = []"
| "collapse_from in_run (c # cs) =
     (if is_lower_alnum c then c # collapse_from False cs
      else if in_run then collapse_from True cs
      else CHR ''-'' # collapse_from True cs)"

definition collapse_runs :: "string \<Rightarrow> string" where
  "collapse_runs s = collapse_from False s"

text \<open>\<open>.replace(/^-|-$/g, '')\<close>: one hyphen off the front, one off the end.\<close>

definition drop_last_hyphen :: "string \<Rightarrow> string" where
  "drop_last_hyphen s = (if s \<noteq> [] \<and> last s = CHR ''-'' then butlast s else s)"

definition strip_hyphens :: "string \<Rightarrow> string" where
  "strip_hyphens s =
     drop_last_hyphen (case s of [] \<Rightarrow> [] | c # cs \<Rightarrow> if c = CHR ''-'' then cs else s)"

text \<open>\<open>sanitizeFileName\<close>.\<close>

definition sanitizeFileName :: "js_runtime \<Rightarrow> string \<Rightarrow> string" where
  "sanitizeFileName rt name = strip_hyphens (collapse_runs (toLowerCase rt name))"

subsection \<open>Rendering\<close>

text \<open>Exceptions: \<open>and_then\<close> runs the continuation unless the first computation threw;
  \<open>sequence\<close> is \<open>xs.map(f)\<close> for an \<open>f\<close> that may throw, the first exception ending it.\<close>

definition and_then :: "error + 'a \<Rightarrow> ('a \<Rightarrow> error + 'b) \<Rightarrow> error + 'b" where
  "and_then r f = (case r of Inl e \<Rightarrow> Inl e | Inr x \<Rightarrow> f x)"

fun sequence :: "(error + 'a) list \<Rightarrow> error + 'a list" where
  "sequence [] = Inr []"
| "sequence (r # rs) =
     (case r of
        Inl e \<Rightarrow> Inl e
      | Inr x \<Rightarrow> (case sequence rs of Inl e \<Rightarrow> Inl e | Inr xs \<Rightarrow> Inr (x # xs)))"

text \<open>An optional string inside a template literal: an absent one reads \<open>undefined\<close>.\<close>

definition opt_text :: "string option \<Rightarrow> string" where
  "opt_text s = (case s of None \<Rightarrow> ''undefined'' | Some t \<Rightarrow> t)"

text \<open>
  The renderers cast the steps to the kind they render (\<open>steps.steps as WebStep[]\<close>) without
  looking at them, so each reads the properties of its kind from whatever step it is
  given; a property the step does not have is \<open>undefined\<close>.
\<close>

definition step_description :: "step \<Rightarrow> string" where
  "step_description s = (case s of WebStep w \<Rightarrow> ws_description w | ApiStep a \<Rightarrow> as_description a)"

definition step_action :: "step \<Rightarrow> string option" where
  "step_action s = (case s of WebStep w \<Rightarrow> Some (ws_action w) | ApiStep a \<Rightarrow> None)"

definition step_selector :: "step \<Rightarrow> string option" where
  "step_selector s = (case s of WebStep w \<Rightarrow> ws_selector w | ApiStep a \<Rightarrow> None)"

definition step_target :: "step \<Rightarrow> string option" where
  "step_target s = (case s of WebStep w \<Rightarrow> ws_target w | ApiStep a \<Rightarrow> None)"

definition step_value :: "step \<Rightarrow> jsval" where
  "step_value s = (case s of WebStep w \<Rightarrow> ws_value w | ApiStep a \<Rightarrow> JUndefined)"

definition step_method :: "step \<Rightarrow> string option" where
  "step_method s = (case s of WebStep w \<Rightarrow> None | ApiStep a \<Rightarrow> Some (as_method a))"

definition step_endpoint :: "step \<Rightarrow> string option" where
  "step_endpoint s = (case s of WebStep w \<Rightarrow> None | ApiStep a \<Rightarrow> Some (as_endpoint a))"

definition step_headers :: "step \<Rightarrow> (string \<times> string) list option" where
  "step_headers s = (case s of WebStep w \<Rightarrow> None | ApiStep a \<Rightarrow> as_headers a)"

definition step_body :: "step \<Rightarrow> jsval" where
  "step_body s = (case s of WebStep w \<Rightarrow> JUndefined | ApiStep a \<Rightarrow> as_body a)"

definition step_expected_status :: "step \<Rightarrow> js_num option" where
  "step_expected_status s = (case s of WebStep w \<Rightarrow> None | ApiStep a \<Rightarrow> as_expected_status a)"

definition step_expected_body :: "step \<Rightarrow> jsval" where
  "step_expected_body s = (case s of WebStep w \<Rightarrow> JUndefined | ApiStep a \<Rightarrow> as_expected_body a)"

definition step_save_response :: "step \<Rightarrow> string option" where
  "step_save_response s = (case s of WebStep w \<Rightarrow> None | ApiStep a \<Rightarrow> as_save_response a)"

text \<open>A quoted literal \<open>'...'\<close> of the generated source.\<close>

definition quoted :: "string \<Rightarrow> string" where
  "quoted s = [quote] @ s @ [quote]"

text \<open>\<open>generatePlaywrightStep\<close>: the comment line, then the statement of the action.\<close>

definition statement :: "string \<Rightarrow> string \<Rightarrow> string" where
  "statement comment code = comment @ [nl] @ ''    '' @ code"

definition generatePlaywrightStep :: "js_runtime \<Rightarrow> step \<Rightarrow> nat \<Rightarrow> error + string" where
  "generatePlaywrightStep rt step index =
     (let comment = ''// '' @ step_description step;
          selector = opt_text (step_selector step);
          action = step_action step
      in
      if action = Some ''navigate'' then
        Inr (statement comment (''await page.goto('' @ quoted (opt_text (step_target step)) @ '');''))
      else if action = Some ''click'' then
        Inr (statement comment (''await page.click('' @ quoted selector @ '');''))
      else if action = Some ''fill'' then
        and_then (toString rt (step_value step)) (\<lambda>v.
          Inr (statement comment
                 (''await page.fill('' @ quoted selector @ '', '' @ quoted (escapeString v) @ '');'')))
      else if action = Some ''select'' then
        and_then (toString rt (step_value step)) (\<lambda>v.
          Inr (statement comment
                 (''await page.selectOption('' @ quoted selector @ '', '' @ quoted (escapeString v) @ '');'')))
      else if action = Some ''check'' then
        Inr (statement comment (''await page.check('' @ quoted selector @ '');''))
      else if action = Some ''uncheck'' then
        Inr (statement comment (''await page.uncheck('' @ quoted selector @ '');''))
      else if action = Some ''wait'' then
        (if step_selector step \<noteq> None \<and> step_selector step \<noteq> Some [] then
           Inr (statement comment
                  (''await page.waitForSelector('' @ quoted selector @ '', { state: '' @ quoted ''visible'' @ '' });''))
         else if truthy (step_value step) then
           and_then (toString rt (step_value step)) (\<lambda>v.
             Inr (statement comment (''await page.waitForTimeout('' @ v @ '');'')))
         else
           Inr (statement comment (''await page.waitForLoadState('' @ quoted ''domcontentloaded'' @ '');'')))
      else if action = Some ''assert'' then
        (if step_value step \<noteq> JUndefined then
           and_then (toString rt (step_value step)) (\<lambda>v.
             Inr (statement comment
                    (''await expect(page.locator('' @ quoted selector @ '')).toContainText(''
                       @ quoted (escapeString v) @ '');'')))
         else
           Inr (statement comment (''await expect(page.locator('' @ quoted selector @ '')).toBeVisible();'')))
      else if action = Some ''screenshot'' then
        Inr (statement comment
               (''await page.screenshot({ path: '' @ quoted (''screenshots/step-'' @ string_of_nat (index + 1) @ ''.png'')
                  @ '' });''))
      else
        Inr (statement comment (''// TODO: Implement '' @ opt_text action)))"

text \<open>A test case together with the steps found for it.\<close>

type_synonym test_entry = "test_case \<times> test_steps"

definition description_or_name :: "test_case \<Rightarrow> string" where
  "description_or_name tc =
     (case tc_description tc of
        None \<Rightarrow> tc_name tc
      | Some d \<Rightarrow> if d = [] then tc_name tc else d)"

definition generatePlaywrightTestCase :: "js_runtime \<Rightarrow> test_entry \<Rightarrow> error + string" where
  "generatePlaywrightTestCase rt t =
     (let testCase = fst t; sts = steps (snd t);
          testName = escapeString (tc_name testCase)
      in and_then (sequence (map (\<lambda>(step, index). generatePlaywrightStep rt step index)
                              (zip sts [0 ..< length sts]))) (\<lambda>rendered.
           Inr (''  test('' @ quoted testName @ '', async ({ page }) => {'' @ [nl]
                @ ''    // '' @ description_or_name testCase @ [nl]
                @ join ([nl] @ ''    '') rendered @ [nl]
                @ ''  });'')))"

definition imports_line :: string where
  "imports_line = ''import { test, expect } from '' @ quoted ''@playwright/test'' @ '';'' @ [nl, nl]"

definition generatePlaywrightTest :: "js_runtime \<Rightarrow> string \<Rightarrow> test_entry list \<Rightarrow> language \<Rightarrow> error + string" where
  "generatePlaywrightTest rt groupName tests lang =
     and_then (sequence (map (generatePlaywrightTestCase rt) tests)) (\<lambda>rendered.
       Inr (imports_line
            @ ''test.describe('' @ quoted (escapeString groupName) @ '', () => {'' @ [nl]
            @ join [nl, nl] rendered @ [nl]
            @ ''});'' @ [nl]))"

text \<open>\<open>generateApiStep\<close>. The request options are built up piece by piece, as in the source.\<close>

definition indent_lines :: "nat \<Rightarrow> string \<Rightarrow> string" where
  "indent_lines n s = replace_char nl (nl # replicate n CHR '' '') s"

definition headers_value :: "(string \<times> string) list \<Rightarrow> jsval" where
  "headers_value h = JObj (map (\<lambda>(k, v). (k, JStr v)) h)"

definition generateApiStep :: "js_runtime \<Rightarrow> step \<Rightarrow> string" where
  "generateApiStep rt step =
     (let comment = ''// '' @ step_description step;
          requestOptions0 = ''{'' @ [nl] @ ''      method: '' @ quoted (opt_text (step_method step)) @ '','';
          requestOptions1 =
            (case step_headers step of
               None \<Rightarrow> requestOptions0
             | Some h \<Rightarrow>
                 if h \<noteq> [] then
                   requestOptions0 @ [nl] @ ''      headers: ''
                     @ indent_lines 6 (json_stringify rt (headers_value h) 6) @ '',''
                 else requestOptions0);
          requestOptions2 =
            (if truthy (step_body step) then
               requestOptions1 @ [nl] @ ''      data: ''
                 @ indent_lines 6 (json_stringify rt (step_body step) 6) @ '',''
             else requestOptions1);
          requestOptions = requestOptions2 @ [nl] @ ''    }'';
          status =
            (case step_expected_status step of
               None \<Rightarrow> ''200''
             | Some n \<Rightarrow> if truthy (JNum n) then number_toString rt n else ''200'');
          code0 = comment @ [nl]
            @ ''    const response = await request.fetch('' @ quoted (opt_text (step_endpoint step)) @ '', ''
            @ requestOptions @ '');'' @ [nl]
            @ ''    expect(response.status()).toBe('' @ status @ '');'';
          code1 =
            (case step_save_response step of
               None \<Rightarrow> code0
             | Some v \<Rightarrow>
                 if v \<noteq> [] then
                   code0 @ [nl] @ ''    const '' @ v @ '' = await response.json();''
                     @ [nl] @ ''    savedResponses['' @ quoted v @ ''] = '' @ v @ '';''
                 else code0)
      in
      if truthy (step_expected_body step) then
        code1 @ [nl] @ ''    const body = await response.json();''
          @ [nl] @ ''    expect(body).toMatchObject(''
          @ indent_lines 4 (json_stringify rt (step_expected_body step) 2) @ '');''
      else code1)"

definition generateApiTestCase :: "js_runtime \<Rightarrow> test_entry \<Rightarrow> string" where
  "generateApiTestCase rt t =
     (let testCase = fst t; sts = steps (snd t);
          testName = escapeString (tc_name testCase);
          testSteps = join ([nl, nl] @ ''    '') (map (generateApiStep rt) sts)
      in ''  test('' @ quoted testName @ '', async ({ request }) => {'' @ [nl]
         @ ''    // '' @ description_or_name testCase @ [nl]
         @ ''    '' @ testSteps @ [nl]
         @ ''  });'')"

definition setupCode :: string where
  "setupCode = ''let savedResponses: Record<string, any> = {};'' @ [nl, nl]"

definition generateApiTest :: "js_runtime \<Rightarrow> string \<Rightarrow> test_entry list \<Rightarrow> language \<Rightarrow> string" where
  "generateApiTest rt groupName tests lang =
     imports_line @ setupCode
       @ ''test.describe('' @ quoted (escapeString groupName @ '' API'') @ '', () => {'' @ [nl]
       @ join [nl, nl] (map (generateApiTestCase rt) tests) @ [nl]
       @ ''});'' @ [nl]"

subsection \<open>Grouping, files and the result\<close>

text \<open>
  \<open>groupTestCases\<close>. The groups are the properties of a plain object. Where the group name
  is one that every object inherits and the object has no such property of its own yet,
  \<open>groups[groupName]\<close> is the inherited value, no array is created, and calling its
  \<open>push\<close> throws.
\<close>

definition group_name :: "test_case \<Rightarrow> string" where
  "group_name tc =
     (case tc_tags tc of
        None \<Rightarrow> ''general''
      | Some [] \<Rightarrow> ''general''
      | Some (t # ts) \<Rightarrow> if t = [] then ''general'' else t)"

fun group_loop :: "test_steps list \<Rightarrow> test_case list \<Rightarrow> (string \<times> test_entry list) list
    \<Rightarrow> error + (string \<times> test_entry list) list" where
  "group_loop sts [] groups = Inr groups"
| "group_loop sts (testCase # rest) groups =
     (case find (\<lambda>s. test_case_id s = tc_id testCase) sts of
        None \<Rightarrow> group_loop sts rest groups
      | Some testSteps \<Rightarrow>
          (let groupName = group_name testCase in
           case obj_get groups groupName of
             Some entries \<Rightarrow>
               group_loop sts rest (obj_put groupName (entries @ [(testCase, testSteps)]) groups)
           | None \<Rightarrow>
               if groupName \<in> set object_prototype_keys
               then Inl (TypeError ''groups[groupName].push is not a function'')
               else group_loop sts rest (obj_put groupName [(testCase, testSteps)] groups)))"

definition groupTestCases :: "test_case list \<Rightarrow> test_steps list
    \<Rightarrow> error + (string \<times> test_entry list) list" where
  "groupTestCases testCases sts = group_loop sts testCases []"

definition file_name :: "js_runtime \<Rightarrow> string \<Rightarrow> language \<Rightarrow> string" where
  "file_name rt groupName lang =
     sanitizeFileName rt groupName @ ''.spec.'' @ (if lang = Typescript then ''ts'' else ''js'')"

definition render :: "js_runtime \<Rightarrow> framework \<Rightarrow> string \<Rightarrow> test_entry list \<Rightarrow> language \<Rightarrow> error + string" where
  "render rt fw groupName tests lang =
     (if fw = Playwright \<or> fw = Both then generatePlaywrightTest rt groupName tests lang
      else Inr (generateApiTest rt groupName tests lang))"

definition generateTestFile :: "js_runtime \<Rightarrow> 'st file_system \<Rightarrow> string \<Rightarrow> test_entry list
    \<Rightarrow> framework \<Rightarrow> language \<Rightarrow> string \<Rightarrow> 'st \<Rightarrow> (error + generated_file) \<times> 'st" where
  "generateTestFile rt fs groupName tests fw lang outputPath st =
     (case render rt fw groupName tests lang of
        Inl e \<Rightarrow> (Inl e, st)
      | Inr content \<Rightarrow>
          (let filePath = path_join rt outputPath (file_name rt groupName lang) in
           case writeFile fs filePath content st of
             (Some m, st') \<Rightarrow> (Inl (Error m), st')
           | (None, st') \<Rightarrow>
               (Inr \<lparr>gf_path = filePath, gf_content = content,
                     gf_test_count = length tests, gf_framework = fw\<rparr>, st')))"

text \<open>The loop of \<open>generate\<close> over the groups, with its two accumulators.\<close>

fun generate_loop :: "js_runtime \<Rightarrow> 'st file_system \<Rightarrow> framework \<Rightarrow> language \<Rightarrow> string
    \<Rightarrow> (string \<times> test_entry list) list \<Rightarrow> generated_file list \<Rightarrow> string list \<Rightarrow> 'st
    \<Rightarrow> generated_file list \<times> string list \<times> 'st" where
  "generate_loop rt fs fw lang out [] generatedFiles errs st = (generatedFiles, errs, st)"
| "generate_loop rt fs fw lang out ((groupName, tests) # rest) generatedFiles errs st =
     (case generateTestFile rt fs groupName tests fw lang out st of
        (Inr file, st') \<Rightarrow> generate_loop rt fs fw lang out rest (generatedFiles @ [file]) errs st'
      | (Inl e, st') \<Rightarrow>
          generate_loop rt fs fw lang out rest generatedFiles
            (errs @ [''Failed to generate '' @ groupName @ '': '' @ message e]) st')"

definition failed :: "string \<Rightarrow> generation_result" where
  "failed m = \<lparr>files_generated = [], total_tests = 0, success = False, errors = Some [m]\<rparr>"

definition generate :: "js_runtime \<Rightarrow> 'st file_system \<Rightarrow> generation_request \<Rightarrow> 'st
    \<Rightarrow> generation_result \<times> 'st" where
  "generate rt fs request st =
     (case mkdir fs (output_path request) st of
        (Some m, st1) \<Rightarrow> (failed m, st1)
      | (None, st1) \<Rightarrow>
          (case groupTestCases (test_cases request) (request_steps request) of
             Inl e \<Rightarrow> (failed (message e), st1)
           | Inr groupedTests \<Rightarrow>
               (let lang = (case request_language request of None \<Rightarrow> Typescript | Some l \<Rightarrow> l);
                    (generatedFiles, errs, st2) =
                      generate_loop rt fs (request_framework request) lang (output_path request)
                        groupedTests [] [] st1
                in (\<lparr>files_generated = generatedFiles,
                      total_tests = length (test_cases request),
                      success = (errs = []),
                      errors = (if errs \<noteq> [] then Some errs else None)\<rparr>, st2))))"

section \<open>The decision table parser\<close>

subsection \<open>\<open>Number(string)\<close>\<close>

text \<open>
  The numeric literals \<open>Number\<close> accepts, after trimming white space: the empty string
  (zero), a signed decimal with optional fraction and exponent, \<open>Infinity\<close> with an
  optional sign, and unsigned binary, octal and hexadecimal integers. Anything else is
  \<open>NaN\<close>. The value of a literal is rounded to the nearest double, however many
  digits it has, as V8 does.
\<close>

fun split_first :: "(char \<Rightarrow> bool) \<Rightarrow> string \<Rightarrow> string \<times> string option" where
  "split_first p [] = ([], None)"
| "split_first p (c # cs) =
     (if p c then ([], Some cs)
      else (case split_first p cs of (before, after) \<Rightarrow> (c # before, after)))"

definition all_digits :: "string \<Rightarrow> bool" where
  "all_digits s \<longleftrightarrow> s \<noteq> [] \<and> list_all is_digit s"

definition exponent_value :: "string option \<Rightarrow> int option" where
  "exponent_value e =
     (case e of
        None \<Rightarrow> Some 0
      | Some t \<Rightarrow>
          (case t of
             [] \<Rightarrow> None
           | c # cs \<Rightarrow>
               if c = CHR ''+'' then (if all_digits cs then Some (int (nat_of_digits cs)) else None)
               else if c = CHR ''-'' then (if all_digits cs then Some (- int (nat_of_digits cs)) else None)
               else if all_digits t then Some (int (nat_of_digits t)) else None))"

text \<open>The digits of a mantissa, as the number they spell without the point, and how many of
  them follow the point.\<close>

definition mantissa_value :: "string \<Rightarrow> (nat \<times> nat) option" where
  "mantissa_value m =
     (case split_first (\<lambda>c. c = CHR ''.'') m of
        (ip, None) \<Rightarrow> if all_digits ip then Some (nat_of_digits ip, 0) else None
      | (ip, Some fp) \<Rightarrow>
          if list_all is_digit ip \<and> list_all is_digit fp \<and> (ip \<noteq> [] \<or> fp \<noteq> [])
          then Some (nat_of_digits (ip @ fp), length fp)
          else None)"

text \<open>
  \<open>to_double p q\<close> is the double nearest to \<open>p / q\<close> (for \<open>q > 0\<close>), ties going to the even
  significand. \<open>bit_length n\<close> is the number of binary digits of \<open>n\<close>, so that
  \<open>floor_log2 p q\<close> is the exponent \<open>e\<close> with \<open>2^e \<le> p / q < 2^(e+1)\<close>. The doubles from
  \<open>2^e\<close> to \<open>2^(e+1)\<close> are the multiples of \<open>2^(e-52)\<close>; below \<open>2^(-1022)\<close> they are the
  multiples of \<open>2^(-1074)\<close>. \<open>round_half_even n d\<close> is the integer nearest to \<open>n / d\<close>. A
  value that rounds to \<open>2^1024\<close> or more is infinite.
\<close>

fun bit_length :: "nat \<Rightarrow> nat" where
  "bit_length n = (if n = 0 then 0 else bit_length (n div 2) + 1)"

declare bit_length.simps [simp del]

definition floor_log2 :: "nat \<Rightarrow> nat \<Rightarrow> int" where
  "floor_log2 p q =
     (if q \<le> p then int (bit_length (p div q)) - 1 else - int (bit_length ((q - 1) div p)))"

definition round_half_even :: "nat \<Rightarrow> nat \<Rightarrow> nat" where
  "round_half_even n d =
     (let f = n div d; r = n mod d in
      if 2 * r < d then f
      else if d < 2 * r then f + 1
      else if even f then f else f + 1)"

definition pow2 :: "int \<Rightarrow> rat" where
  "pow2 k = (if 0 \<le> k then 2 ^ nat k else 1 / 2 ^ nat (- k))"

definition to_double :: "nat \<Rightarrow> nat \<Rightarrow> js_num" where
  "to_double p q =
     (if p = 0 then Fin 0
      else
        (let e = max (floor_log2 p q) (- 1022);
             m = (if e \<le> 52 then round_half_even (p * 2 ^ nat (52 - e)) q
                  else round_half_even p (q * 2 ^ nat (e - 52)))
         in if 1024 \<le> e \<or> (e = 1023 \<and> m = 2 ^ 53) then Infinity False
            else Fin (of_nat m * pow2 (e - 52))))"

definition negate :: "js_num \<Rightarrow> js_num" where
  "negate n =
     (case n of
        NaN \<Rightarrow> NaN
      | Infinity b \<Rightarrow> Infinity (\<not> b)
      | NegZero \<Rightarrow> Fin 0
      | Fin r \<Rightarrow> if r = 0 then NegZero else Fin (- r))"

text \<open>The value of the decimal literal with the digits \<open>n\<close>, \<open>k\<close> of them after the point, and
  the exponent \<open>ex\<close> is \<open>n\<close> times ten to the power \<open>ex - k\<close>.\<close>

definition scale :: "nat \<Rightarrow> int \<Rightarrow> js_num" where
  "scale n e = (if 0 \<le> e then to_double (n * 10 ^ nat e) 1 else to_double n (10 ^ nat (- e)))"

definition unsigned_decimal :: "string \<Rightarrow> js_num" where
  "unsigned_decimal s =
     (if s = ''Infinity'' then Infinity False
      else (case split_first (\<lambda>c. c = CHR ''e'' \<or> c = CHR ''E'') s of
              (m, e) \<Rightarrow>
                (case exponent_value e of
                   None \<Rightarrow> NaN
                 | Some ex \<Rightarrow>
                     (case mantissa_value m of
                        None \<Rightarrow> NaN
                      | Some (n, k) \<Rightarrow> scale n (ex - int k)))))"

definition signed_decimal :: "string \<Rightarrow> js_num" where
  "signed_decimal s =
     (case s of
        [] \<Rightarrow> NaN
      | c # cs \<Rightarrow>
          if c = CHR ''+'' then unsigned_decimal cs
          else if c = CHR ''-'' then negate (unsigned_decimal cs)
          else unsigned_decimal s)"

definition hex_chars :: string where
  "hex_chars = ''0123456789abcdefABCDEF''"

definition hex_value :: "char \<Rightarrow> nat" where
  "hex_value c =
     (case map_of (zip hex_chars [0, 1, 2, 3, 4, 5, 6, 7, 8, 9, 10, 11, 12, 13, 14, 15,
                                        10, 11, 12, 13, 14, 15]) c of
        Some d \<Rightarrow> d | None \<Rightarrow> 0)"

definition radix_value :: "nat \<Rightarrow> string \<Rightarrow> nat option" where
  "radix_value b s =
     (if s \<noteq> [] \<and> list_all (\<lambda>c. c \<in> set hex_chars \<and> hex_value c < b) s
      then Some (foldl (\<lambda>n c. b * n + hex_value c) 0 s) else None)"

definition non_decimal :: "string \<Rightarrow> nat option" where
  "non_decimal s =
     (case s of
        c # d # ds \<Rightarrow>
          if c \<noteq> CHR ''0'' then None
          else if d = CHR ''x'' \<or> d = CHR ''X'' then radix_value 16 ds
          else if d = CHR ''o'' \<or> d = CHR ''O'' then radix_value 8 ds
          else if d = CHR ''b'' \<or> d = CHR ''B'' then radix_value 2 ds
          else None
      | _ \<Rightarrow> None)"

definition Number :: "string \<Rightarrow> js_num" where
  "Number s =
     (let t = trim s in
      if t = [] then Fin 0
      else (case non_decimal t of Some n \<Rightarrow> to_double n 1 | None \<Rightarrow> signed_decimal t))"

subsection \<open>Rows\<close>

text \<open>
  A row of a table is an object whose properties are the cells, under their headers. The
  cells are strings; the one exception is the property \<open>__parsed_extra\<close> that Papa Parse
  adds, after the cells, to a row of a CSV file with more fields than the header has: it
  holds the surplus fields as an array of strings. \<open>__parsed_extra\<close> is taken not to be a
  header.
\<close>

type_synonym row = "(string \<times> string) list"

type_synonym table_row = "row \<times> string list option"

datatype cell = Text string | Fields "string list"

definition parsed_extra :: string where
  "parsed_extra = ''__parsed_extra''"

definition row_keys :: "table_row \<Rightarrow> string list" where
  "row_keys rw = map fst (fst rw) @ (case snd rw of None \<Rightarrow> [] | Some xs \<Rightarrow> [parsed_extra])"

definition row_get :: "table_row \<Rightarrow> string \<Rightarrow> cell option" where
  "row_get rw key =
     (case obj_get (fst rw) key of
        Some v \<Rightarrow> Some (Text v)
      | None \<Rightarrow>
          (case snd rw of
             None \<Rightarrow> None
           | Some xs \<Rightarrow> if key = parsed_extra then Some (Fields xs) else None))"

definition cell_truthy :: "cell \<Rightarrow> bool" where
  "cell_truthy c = (case c of Text v \<Rightarrow> v \<noteq> [] | Fields xs \<Rightarrow> True)"

definition row_object :: "table_row \<Rightarrow> jsval" where
  "row_object rw =
     JObj (map (\<lambda>(k, v). (k, JStr v)) (fst rw)
           @ (case snd rw of None \<Rightarrow> [] | Some xs \<Rightarrow> [(parsed_extra, JArr (map JStr xs))]))"

text \<open>
  \<open>parseValue\<close>. The comparisons with the four words fail for an array. \<open>Number\<close> of an
  array is \<open>Number\<close> of its elements joined by commas; when that is a number the call
  \<open>value.trim()\<close> is evaluated, which an array does not have.
\<close>

definition parseValue :: "cell \<Rightarrow> error + jsval" where
  "parseValue c =
     (case c of
        Text v \<Rightarrow>
          if v = ''true'' then Inr (JBool True)
          else if v = ''false'' then Inr (JBool False)
          else if v = ''null'' then Inr JNull
          else if v = ''undefined'' then Inr JUndefined
          else if Number v \<noteq> NaN \<and> trim v \<noteq> [] then Inr (JNum (Number v))
          else Inr (JStr v)
      | Fields xs \<Rightarrow>
          if Number (join '','' xs) \<noteq> NaN
          then Inl (TypeError ''value.trim is not a function'')
          else Inr (JArr (map JStr xs)))"

text \<open>\<open>Object.entries(v)\<close>: the properties of an object, the indexed elements of an array or
  of a string, nothing for a number or a boolean; \<open>null\<close> and \<open>undefined\<close> throw.\<close>

definition entries :: "js_runtime \<Rightarrow> jsval \<Rightarrow> error + (string \<times> jsval) list" where
  "entries rt v =
     (case v of
        JUndefined \<Rightarrow> Inl (TypeError ''Cannot convert undefined or null to object'')
      | JNull \<Rightarrow> Inl (TypeError ''Cannot convert undefined or null to object'')
      | JBool b \<Rightarrow> Inr []
      | JNum n \<Rightarrow> Inr []
      | JStr s \<Rightarrow>
          Inr (zip (map string_of_nat [0 ..< length (string_units rt s)])
                   (map JStr (string_units rt s)))
      | JArr xs \<Rightarrow> Inr (zip (map string_of_nat [0 ..< length xs]) xs)
      | JObj kvs \<Rightarrow> Inr kvs)"

text \<open>
  The three characters that the template literal of \<open>generateTestName\<close> has between the
  condition summary and the expected value, a space before and after them, as the source
  file holds them: U+00E2, U+2020 and U+2019, in UTF-8 the bytes C3 A2, E2 80 A0 and
  E2 80 99.
\<close>

definition name_separator :: string where
  "name_separator = [CHR 0xC3, CHR 0xA2, CHR 0xE2, CHR 0x80, CHR 0xA0, CHR 0xE2, CHR 0x80, CHR 0x99]"

text \<open>\<open>generateTestName\<close>: the first two entries as \<open>key: value\<close>, joined by a comma and a
  space, then the separator and the expected value when that is truthy.\<close>

definition generateTestName :: "js_runtime \<Rightarrow> jsval \<Rightarrow> jsval \<Rightarrow> error + string" where
  "generateTestName rt conditions expected =
     and_then (entries rt conditions) (\<lambda>es.
     and_then (sequence (map (\<lambda>(key, v). and_then (toString rt v) (\<lambda>s. Inr (key @ '': '' @ s)))
                           (take 2 es))) (\<lambda>parts.
       (let conditionSummary = join '', '' parts in
        if truthy expected
        then and_then (toString rt expected)
               (\<lambda>e. Inr (conditionSummary @ '' '' @ name_separator @ '' '' @ e))
        else Inr conditionSummary)))"

text \<open>\<open>a || b || c\<close> over cells: the first that is present and not empty.\<close>

fun first_truthy :: "string option list \<Rightarrow> string option" where
  "first_truthy [] = None"
| "first_truthy (None # rest) = first_truthy rest"
| "first_truthy (Some s # rest) = (if s \<noteq> [] then Some s else first_truthy rest)"

definition or_else :: "string option \<Rightarrow> string \<Rightarrow> string" where
  "or_else c d = (case c of None \<Rightarrow> d | Some s \<Rightarrow> s)"

definition specialColumns :: "string list" where
  "specialColumns =
     [''id'', ''test id'', ''test_id'', ''name'', ''test name'', ''test_name'', ''description'',
      ''action'', ''actions'', ''expected result'', ''expected_result'', ''expected'',
      ''priority'', ''tags'']"

text \<open>An assignment \<open>o[k] = v\<close> of a primitive value: the key \<open>__proto__\<close> names the
  prototype, not a property, and assigning a primitive to it changes nothing.\<close>

definition obj_assign :: "string \<Rightarrow> 'a \<Rightarrow> (string \<times> 'a) list \<Rightarrow> (string \<times> 'a) list" where
  "obj_assign k v obj = (if k = ''__proto__'' then obj else obj_put k v obj)"

definition auto_id :: "nat \<Rightarrow> string" where
  "auto_id index = ''TC'' @ padStart 3 CHR ''0'' (string_of_nat (index + 1))"

definition split_list :: "string \<Rightarrow> string list" where
  "split_list s = filter (\<lambda>f. f \<noteq> []) (map trim (split_on CHR '','' s))"

text \<open>The loop over \<open>Object.keys(row)\<close> that collects the conditions; an exception of
  \<open>parseValue\<close> ends it. The value stored under the key of an array is the array.\<close>

definition row_conditions :: "js_runtime \<Rightarrow> table_row \<Rightarrow> error + (string \<times> jsval) list" where
  "row_conditions rt rw =
     foldl (\<lambda>acc key.
              and_then acc (\<lambda>conditions.
                case row_get rw key of
                  None \<Rightarrow> Inr conditions
                | Some c \<Rightarrow>
                    if trim (toLowerCase rt key) \<notin> set specialColumns \<and> cell_truthy c
                    then and_then (parseValue c) (\<lambda>v. Inr (obj_assign key v conditions))
                    else Inr conditions))
       (Inr []) (row_keys rw)"

definition convertRowToTestCase :: "js_runtime \<Rightarrow> table_row \<Rightarrow> nat \<Rightarrow> error + test_case" where
  "convertRowToTestCase rt rw index =
     (let r = fst rw;
          ident = or_else (first_truthy [obj_get r ''id'', obj_get r ''test id'', obj_get r ''test_id''])
                    (auto_id index);
          expectedResult =
            or_else (first_truthy [obj_get r ''expected result'', obj_get r ''expected_result'',
                                   obj_get r ''expected'']) []
      in
      and_then
        (case first_truthy [obj_get r ''name'', obj_get r ''test name'', obj_get r ''test_name''] of
           Some n \<Rightarrow> Inr n
         | None \<Rightarrow> generateTestName rt (row_object rw) (JStr expectedResult)) (\<lambda>name.
        (let description = or_else (first_truthy [obj_get r ''description'']) [];
             priority =
               or_else (first_truthy [map_option (toLowerCase rt) (obj_get r ''priority'')]) ''medium'';
             tags =
               (case first_truthy [obj_get r ''tags''] of
                  None \<Rightarrow> []
                | Some t \<Rightarrow> map trim (split_on CHR '','' t));
             actions = or_else (first_truthy [obj_get r ''action'', obj_get r ''actions'']) [];
             actionsList = split_list actions;
             expected =
               or_else (first_truthy [obj_get r ''expected result'', obj_get r ''expected_result'',
                                      obj_get r ''expected'']) [];
             expectedList = split_list expected
         in and_then (row_conditions rt rw) (\<lambda>conditions.
              Inr \<lparr>tc_id = ident, tc_name = name, tc_description = Some description,
                   tc_conditions = conditions, tc_actions = actionsList,
                   tc_expected_results = expectedList, tc_priority = Some priority,
                   tc_tags = Some tags\<rparr>))))"

definition convertRowsToTestCases :: "js_runtime \<Rightarrow> table_row list \<Rightarrow> error + test_case list" where
  "convertRowsToTestCases rt rows =
     sequence (map (\<lambda>(rw, index). convertRowToTestCase rt rw index) (zip rows [0 ..< length rows]))"

subsection \<open>Feature names and formats\<close>

text \<open>
  \<open>path.basename\<close> and \<open>path.extname\<close> of Node.js on POSIX paths. The last portion of a path
  is what follows its last slash, trailing slashes left aside. The extension runs from the
  last dot of that portion to its end; there is none when the portion has no dot, when
  its only dot is its first character, or when the portion is \<open>..\<close>.
\<close>

definition last_portion :: "string \<Rightarrow> string" where
  "last_portion p =
     rev (takeWhile (\<lambda>c. c \<noteq> CHR ''/'') (dropWhile (\<lambda>c. c = CHR ''/'') (rev p)))"

definition extname :: "string \<Rightarrow> string" where
  "extname p =
     (let b = last_portion p;
          ext = CHR ''.'' # rev (takeWhile (\<lambda>c. c \<noteq> CHR ''.'') (rev b))
      in if CHR ''.'' \<notin> set b \<or> length ext = length b \<or> b = ''..'' then [] else ext)"

text \<open>\<open>path.basename(p, path.extname(p))\<close>.\<close>

definition basename_without_ext :: "string \<Rightarrow> string" where
  "basename_without_ext p = (let b = last_portion p in take (length b - length (extname p)) b)"

text \<open>\<open>.replace(/-decision-table$/, '')\<close>.\<close>

definition strip_table_suffix :: "string \<Rightarrow> string" where
  "strip_table_suffix s =
     (if suffix ''-decision-table'' s then take (length s - length ''-decision-table'') s else s)"

text \<open>\<open>.replace(/\b\w/g, (char) => char.toUpperCase())\<close>: a word character (letter, digit or
  underscore) that does not follow a word character is put in upper case.\<close>

definition is_word_char :: "char \<Rightarrow> bool" where
  "is_word_char c \<longleftrightarrow>
     c \<in> set lower_chars \<or> c \<in> set upper_chars \<or> c \<in> set digit_chars \<or> c = CHR ''_''"

fun capitalize_from :: "bool \<Rightarrow> string \<Rightarrow> string" where
  "capitalize_from after_word [] = []"
| "capitalize_from after_word (c # cs) =
     (if is_word_char c \<and> \<not> after_word then to_upper c else c) # capitalize_from (is_word_char c) cs"

definition extractFeatureName :: "string \<Rightarrow> string" where
  "extractFeatureName filePath =
     capitalize_from False
       (replace_char CHR ''-'' '' ''
          (replace_char CHR ''_'' '' '' (strip_table_suffix (basename_without_ext filePath))))"

datatype table_format = Csv | Json | Markdown

definition detectFormat :: "js_runtime \<Rightarrow> string \<Rightarrow> error + table_format" where
  "detectFormat rt filePath =
     (let ext = toLowerCase rt (extname filePath) in
      if ext = ''.csv'' then Inr Csv
      else if ext = ''.json'' then Inr Json
      else if ext = ''.md'' \<or> ext = ''.markdown'' then Inr Markdown
      else Inl (Error (''Cannot detect format from extension: '' @ ext)))"

subsection \<open>Tables\<close>

record metadata =
  md_source :: string
  md_format :: table_format
  md_row_count :: "nat option"

record decision_table =
  feature :: string
  description :: "string option"
  table_cases :: "test_case list"
  table_metadata :: metadata

text \<open>\<open>parseCSV\<close>, on the rows Papa Parse read (header row as keys, empty lines skipped).\<close>

definition parseCSV :: "js_runtime \<Rightarrow> table_row list \<Rightarrow> string \<Rightarrow> error + decision_table" where
  "parseCSV rt rows filePath =
     and_then (convertRowsToTestCases rt rows) (\<lambda>testCases.
       Inr \<lparr>feature = extractFeatureName filePath, description = None, table_cases = testCases,
            table_metadata = \<lparr>md_source = filePath, md_format = Csv,
                              md_row_count = Some (length rows)\<rparr>\<rparr>)"

text \<open>The block tokens of the Markdown lexer that the parser looks at: a heading with its
  depth and text, a paragraph with its text, a table with the texts of its header cells
  and of the cells of each row. Every other token is \<open>Other\<close>.\<close>

datatype token =
    Heading nat string
  | Paragraph string
  | Table "string list" "string list list"
  | Other

text \<open>\<open>parseMarkdownTable\<close>: a cell the row does not have, and an empty one, read as the
  empty string.\<close>

definition row_data :: "string list \<Rightarrow> string list \<Rightarrow> row" where
  "row_data headers cells =
     foldl (\<lambda>rowData (header, i). obj_assign header (if i < length cells then cells ! i else []) rowData)
       [] (zip headers [0 ..< length headers])"

definition parseMarkdownTable :: "js_runtime \<Rightarrow> string list \<Rightarrow> string list list
    \<Rightarrow> error + test_case list" where
  "parseMarkdownTable rt header rows =
     (let headers = map (\<lambda>h. trim (toLowerCase rt h)) header in
      sequence (map (\<lambda>(cells, index). convertRowToTestCase rt (row_data headers cells, None) index)
                  (zip rows [0 ..< length rows])))"

text \<open>The loop of \<open>parseMarkdown\<close> over the tokens, with its three variables.\<close>

fun markdown_loop :: "js_runtime \<Rightarrow> token list \<Rightarrow> string \<Rightarrow> string option \<Rightarrow> test_case list
    \<Rightarrow> error + string \<times> string option \<times> test_case list" where
  "markdown_loop rt [] featureName descr testCases = Inr (featureName, descr, testCases)"
| "markdown_loop rt (Heading depth text # rest) featureName descr testCases =
     markdown_loop rt rest (if depth = 1 \<and> featureName = [] then text else featureName) descr testCases"
| "markdown_loop rt (Paragraph text # rest) featureName descr testCases =
     markdown_loop rt rest featureName
       (if descr = None \<or> descr = Some [] then Some text else descr) testCases"
| "markdown_loop rt (Table header rows # rest) featureName descr testCases =
     and_then (parseMarkdownTable rt header rows) (\<lambda>tableTestCases.
       markdown_loop rt rest featureName descr (testCases @ tableTestCases))"
| "markdown_loop rt (Other # rest) featureName descr testCases =
     markdown_loop rt rest featureName descr testCases"

definition parseMarkdown :: "js_runtime \<Rightarrow> token list \<Rightarrow> string \<Rightarrow> error + decision_table" where
  "parseMarkdown rt tokens filePath =
     and_then (markdown_loop rt tokens (extractFeatureName filePath) None []) (\<lambda>(featureName, descr, testCases).
       Inr \<lparr>feature = featureName, description = descr, table_cases = testCases,
            table_metadata = \<lparr>md_source = filePath, md_format = Markdown, md_row_count = None\<rparr>\<rparr>)"

subsection \<open>JSON documents\<close>

text \<open>
  Reading one of the properties the parser reads (\<open>feature\<close>, \<open>test_cases\<close>, \<open>rules\<close>, \<open>id\<close>,
  \<open>name\<close>, \<open>description\<close>, \<open>conditions\<close>, \<open>actions\<close>, \<open>expected\<close>, \<open>priority\<close>, \<open>tags\<close>)
  from a value: \<open>null\<close> throws, an object gives the property or \<open>undefined\<close>, and the other
  values have no property of these names.
\<close>

definition get_prop :: "jsval \<Rightarrow> string \<Rightarrow> error + jsval" where
  "get_prop v k =
     (case v of
        JUndefined \<Rightarrow> Inl (TypeError (''Cannot read properties of undefined (reading '' @ quoted k @ '')''))
      | JNull \<Rightarrow> Inl (TypeError (''Cannot read properties of null (reading '' @ quoted k @ '')''))
      | JObj kvs \<Rightarrow> Inr (case map_of kvs k of None \<Rightarrow> JUndefined | Some x \<Rightarrow> x)
      | _ \<Rightarrow> Inr JUndefined)"

text \<open>\<open>a || b\<close> on values.\<close>

definition or_value :: "jsval \<Rightarrow> jsval \<Rightarrow> jsval" where
  "or_value a b = (if truthy a then a else b)"

record rule_case =
  rc_id :: jsval
  rc_name :: jsval
  rc_description :: jsval
  rc_conditions :: jsval
  rc_actions :: jsval
  rc_expected_results :: jsval
  rc_priority :: jsval
  rc_tags :: jsval

record rules_table =
  rules_feature :: jsval
  rules_description :: jsval
  rules_cases :: "rule_case list"
  rules_metadata :: metadata

text \<open>What \<open>parse\<close> returns: a table built from rows, a table built from the rules of a JSON
  document, or a JSON document handed back as it was read.\<close>

datatype parsed = FromRows decision_table | FromRules rules_table | AsIs jsval

definition dquote :: char where
  "dquote = CHR 0x22"

definition invalid_json_format :: string where
  "invalid_json_format =
     ''Invalid JSON format. Expected '' @ [dquote] @ ''feature'' @ [dquote] @ '' and ''
       @ [dquote] @ ''test_cases'' @ [dquote] @ '' or '' @ [dquote] @ ''rules'' @ [dquote]"

text \<open>The function \<open>parseJSON\<close> maps over \<open>data.rules\<close>.\<close>

definition convertRule :: "js_runtime \<Rightarrow> jsval \<Rightarrow> nat \<Rightarrow> error + rule_case" where
  "convertRule rt rule index =
     and_then (get_prop rule ''id'') (\<lambda>rule_id.
     and_then (get_prop rule ''name'') (\<lambda>rule_name.
     and_then (if truthy rule_name then Inr rule_name
               else and_then (get_prop rule ''conditions'') (\<lambda>conditions.
                    and_then (get_prop rule ''expected'') (\<lambda>expected.
                    and_then (generateTestName rt conditions expected) (\<lambda>n. Inr (JStr n))))) (\<lambda>name.
     and_then (get_prop rule ''description'') (\<lambda>descr.
     and_then (get_prop rule ''conditions'') (\<lambda>conditions.
     and_then (get_prop rule ''actions'') (\<lambda>actions.
     and_then (get_prop rule ''expected'') (\<lambda>expected.
     and_then (get_prop rule ''priority'') (\<lambda>priority.
     and_then (get_prop rule ''tags'') (\<lambda>tags.
       Inr \<lparr>rc_id = or_value rule_id (JStr (auto_id index)),
            rc_name = name,
            rc_description = descr,
            rc_conditions = conditions,
            rc_actions = or_value actions (JArr []),
            rc_expected_results = or_value expected (JArr []),
            rc_priority = or_value priority (JStr ''medium''),
            rc_tags = or_value tags (JArr [])\<rparr>)))))))))"

definition parseJSON :: "js_runtime \<Rightarrow> jsval \<Rightarrow> string \<Rightarrow> error + parsed" where
  "parseJSON rt data filePath =
     and_then (get_prop data ''feature'') (\<lambda>data_feature.
     and_then (get_prop data ''test_cases'') (\<lambda>data_test_cases.
       if truthy data_feature \<and> truthy data_test_cases then Inr (AsIs data)
       else
         and_then (get_prop data ''rules'') (\<lambda>data_rules.
           if truthy data_feature \<and> truthy data_rules then
             (case data_rules of
                JArr rules \<Rightarrow>
                  and_then (sequence (map (\<lambda>(rule, index). convertRule rt rule index)
                                          (zip rules [0 ..< length rules]))) (\<lambda>testCases.
                  and_then (get_prop data ''description'') (\<lambda>descr.
                    Inr (FromRules
                           \<lparr>rules_feature = data_feature, rules_description = descr,
                            rules_cases = testCases,
                            rules_metadata = \<lparr>md_source = filePath, md_format = Json,
                                              md_row_count = None\<rparr>\<rparr>)))
              | _ \<Rightarrow> Inl (TypeError ''data.rules.map is not a function''))
           else Inl (Error invalid_json_format))))"

subsection \<open>\<open>parse\<close>\<close>

text \<open>
  What \<open>parse\<close> takes from outside the program: reading the file (which may reject with a
  message) and the three libraries that turn the text of the file into rows, into a JSON
  value (or a syntax error) and into block tokens.
\<close>

record parser_env =
  readFile :: "string \<Rightarrow> string + string"
  papa_parse :: "string \<Rightarrow> table_row list"
  json_parse :: "string \<Rightarrow> error + jsval"
  marked_lexer :: "string \<Rightarrow> token list"

definition parse :: "js_runtime \<Rightarrow> parser_env \<Rightarrow> string \<Rightarrow> table_format option \<Rightarrow> error + parsed" where
  "parse rt env tablePath fmt =
     (case readFile env tablePath of
        Inl m \<Rightarrow> Inl (Error m)
      | Inr fileContent \<Rightarrow>
          and_then (case fmt of Some f \<Rightarrow> Inr f | None \<Rightarrow> detectFormat rt tablePath) (\<lambda>detectedFormat.
            case detectedFormat of
              Csv \<Rightarrow> and_then (parseCSV rt (papa_parse env fileContent) tablePath) (\<lambda>t. Inr (FromRows t))
            | Json \<Rightarrow> and_then (json_parse env fileContent) (\<lambda>data. parseJSON rt data tablePath)
            | Markdown \<Rightarrow>
                and_then (parseMarkdown rt (marked_lexer env fileContent) tablePath) (\<lambda>t. Inr (FromRows t))))"

section \<open>Notions used in the statements\<close>




text \<open>A test case has steps when some element of the steps refers to its id; an entry of a
  group is matched when its steps are among the steps of the request and refer to its
  test case.\<close>

definition has_steps :: "test_steps list \<Rightarrow> test_case \<Rightarrow> bool" where
  "has_steps sts tc \<longleftrightarrow> (\<exists>s \<in> set sts. test_case_id s = tc_id tc)"

definition matched_entry :: "test_steps list \<Rightarrow> test_entry \<Rightarrow> bool" where
  "matched_entry sts t \<longleftrightarrow> snd t \<in> set sts \<and> test_case_id (snd t) = tc_id (fst t)"


section \<open>Notions used in the statements about the parser\<close>

text \<open>The name made from a row of string cells: its first two entries as \<open>key: value\<close>, then
  the separator and the expected text when there is one.\<close>

definition row_name :: "row \<Rightarrow> string \<Rightarrow> string" where
  "row_name r expected =
     join '', '' (map (\<lambda>(k, v). k @ '': '' @ v) (take 2 r))
       @ (if expected = [] then [] else '' '' @ name_separator @ '' '' @ expected)"

text \<open>The cells of a row that the parser reads for the id, the name and the expected result:
  the first of the alternative headers whose cell is present and not empty.\<close>

definition id_cell :: "row \<Rightarrow> string option" where
  "id_cell r = first_truthy [obj_get r ''id'', obj_get r ''test id'', obj_get r ''test_id'']"

definition name_cell :: "row \<Rightarrow> string option" where
  "name_cell r = first_truthy [obj_get r ''name'', obj_get r ''test name'', obj_get r ''test_name'']"

definition expected_cell :: "row \<Rightarrow> string" where
  "expected_cell r =
     or_else (first_truthy [obj_get r ''expected result'', obj_get r ''expected_result'',
                            obj_get r ''expected'']) []"

text \<open>The id of the row at index \<open>i\<close> of its table, and the ids of the rows of one table.\<close>

definition row_id :: "row \<Rightarrow> nat \<Rightarrow> string" where
  "row_id r i = or_else (id_cell r) (auto_id i)"

definition ids_of_rows :: "row list \<Rightarrow> string list" where
  "ids_of_rows rows = map (\<lambda>(r, i). row_id r i) (zip rows [0 ..< length rows])"

text \<open>The rows of each table of a token stream, as the objects \<open>parseMarkdownTable\<close> builds.\<close>

fun table_rows :: "js_runtime \<Rightarrow> token list \<Rightarrow> row list list" where
  "table_rows rt [] = []"
| "table_rows rt (Table header rows # rest) =
     map (row_data (map (\<lambda>h. trim (toLowerCase rt h)) header)) rows # table_rows rt rest"
| "table_rows rt (t # rest) = table_rows rt rest"

text \<open>A row without surplus fields: every row of a Markdown table, and a row of a CSV file
  that has no more fields than the header.\<close>

definition plain_row :: "row \<Rightarrow> table_row" where
  "plain_row r = (r, None)"

text \<open>The text of the first level-1 heading whose text is not empty; empty when there is none.\<close>

fun first_heading :: "token list \<Rightarrow> string" where
  "first_heading [] = []"
| "first_heading (Heading depth text # rest) =
     (if depth = 1 \<and> text \<noteq> [] then text else first_heading rest)"
| "first_heading (t # rest) = first_heading rest"

text \<open>The property \<open>k\<close> of a value that is not \<open>null\<close>: \<open>undefined\<close> when it has none.\<close>

definition field :: "jsval \<Rightarrow> string \<Rightarrow> jsval" where
  "field v k =
     (case v of
        JObj kvs \<Rightarrow> (case map_of kvs k of None \<Rightarrow> JUndefined | Some x \<Rightarrow> x)
      | _ \<Rightarrow> JUndefined)"

section \<open>Example inputs\<close>

text \<open>
  A runtime and a file system for the examples. The runtime prints natural numbers in
  decimal, joins paths with a slash, puts the ASCII letters of a string in lower case and
  takes every byte of a string for a code unit, which is what Node.js does on the inputs
  used below (all of them ASCII strings); its \<open>JSON.stringify\<close> is not exercised. The file
  system keeps the files written, in order, and rejects every call on a path in \<open>locked\<close>.
\<close>

definition example_runtime :: js_runtime where
  "example_runtime =
     \<lparr>number_toString =
        (\<lambda>n. case n of
                NaN \<Rightarrow> ''NaN''
              | Infinity b \<Rightarrow> (if b then ''-Infinity'' else ''Infinity'')
              | NegZero \<Rightarrow> ''0''
              | Fin r \<Rightarrow> string_of_nat (nat \<lfloor>r\<rfloor>)),
      json_stringify = (\<lambda>v indent. ''null''),
      path_join = (\<lambda>a b. a @ ''/'' @ b),
      toLowerCase = map to_lower,
      string_units = map (\<lambda>c. [c])\<rparr>"

definition example_fs :: "string list \<Rightarrow> (string \<times> string) list file_system" where
  "example_fs locked =
     \<lparr>mkdir = (\<lambda>p st. if p \<in> set locked then (Some (''EACCES: permission denied, mkdir '' @ p), st)
                       else (None, st)),
      writeFile = (\<lambda>p c st. if p \<in> set locked then (Some (''EACCES: permission denied, open '' @ p), st)
                             else (None, st @ [(p, c)]))\<rparr>"

definition example_fill_step :: step where
  "example_fill_step =
     WebStep \<lparr>ws_action = ''fill'', ws_selector = Some ''#name'', ws_target = None,
              ws_value = JStr ''O'Brien'', ws_description = ''Enter the user's name''\<rparr>"

definition example_click_step :: step where
  "example_click_step =
     WebStep \<lparr>ws_action = ''click'', ws_selector = Some ''#go'', ws_target = None,
              ws_value = JUndefined, ws_description = ''Submit''\<rparr>"

definition example_case :: "string \<Rightarrow> string \<Rightarrow> string list option \<Rightarrow> test_case" where
  "example_case i n tags =
     \<lparr>tc_id = i, tc_name = n, tc_description = None, tc_conditions = [], tc_actions = [],
      tc_expected_results = [], tc_priority = None, tc_tags = tags\<rparr>"

definition example_steps :: "string \<Rightarrow> step list \<Rightarrow> test_steps" where
  "example_steps i sts = \<lparr>test_case_id = i, steps_kind = Web, steps = sts\<rparr>"

text \<open>Three test cases with steps, in the groups \<open>auth\<close>, \<open>search\<close> and \<open>general\<close>, and a
  fourth, \<open>TC004\<close>, that no steps refer to.\<close>

definition example_request :: "framework \<Rightarrow> generation_request" where
  "example_request fw =
     \<lparr>test_cases =
        [example_case ''TC001'' ''Login'' (Some [''auth'']),
         example_case ''TC002'' ''Search'' (Some [''search'']),
         example_case ''TC003'' ''Profile'' None,
         example_case ''TC004'' ''Orphan'' (Some [''auth''])],
      request_steps =
        [example_steps ''TC001'' [example_fill_step, example_click_step],
         example_steps ''TC002'' [example_click_step],
         example_steps ''TC003'' [example_click_step]],
      request_framework = fw,
      output_path = ''out'',
      request_language = None,
      request_style = None\<rparr>"

text \<open>The groups of the example request.\<close>

definition example_groups :: "(string \<times> test_entry list) list" where
  "example_groups =
     [(''auth'', [(example_case ''TC001'' ''Login'' (Some [''auth'']),
                  example_steps ''TC001'' [example_fill_step, example_click_step])]),
      (''search'', [(example_case ''TC002'' ''Search'' (Some [''search'']),
                    example_steps ''TC002'' [example_click_step])]),
      (''general'', [(example_case ''TC003'' ''Profile'' None,
                     example_steps ''TC003'' [example_click_step])])]"

section \<open>Properties of the generator\<close>

subsection \<open>Escaping\<close>

lemmas example_defs = example_fill_step_def example_click_step_def example_case_def
  example_steps_def example_runtime_def

lemmas render_defs = generatePlaywrightStep_def step_description_def step_action_def
  step_selector_def step_value_def step_target_def opt_text_def statement_def quoted_def
  escapeString_def replace_char_def and_then_def quote_def nl_def backslash_def

lemma escapeString_map:
  "escapeString s =
     concat (map (\<lambda>c. if c = quote then [backslash, quote]
                        else if c = nl then [backslash, CHR ''n''] else [c]) s)"
proof (induction s)
  case Nil
  show ?case by (simp add: escapeString_def replace_char_def)
next
  case (Cons a s)
  have "escapeString (a # s) =
      replace_char nl [backslash, CHR ''n''] (if a = quote then [backslash, quote] else [a]) @ escapeString s"
    by (simp add: escapeString_def replace_char_def)
  then show ?case using Cons
    by (simp add: replace_char_def quote_def nl_def backslash_def)
qed

lemma and_then_Inr: "and_then r f = Inr y \<Longrightarrow> \<exists>x. r = Inr x \<and> f x = Inr y"
  by (cases r) (simp_all add: and_then_def)

lemma step_comment_verbatim:
  "generatePlaywrightStep rt s i = Inr c \<Longrightarrow> prefix (''// '' @ step_description s @ [nl]) c"
  unfolding generatePlaywrightStep_def Let_def statement_def
  by (auto split: if_splits dest!: and_then_Inr)

lemma suite_name_escaped:
  "generatePlaywrightTest rt g tests lang = Inr c \<Longrightarrow>
     prefix (imports_line @ ''test.describe('' @ quoted (escapeString g)) c"
  unfolding generatePlaywrightTest_def
  by (auto dest!: and_then_Inr)

lemma test_name_escaped:
  "generatePlaywrightTestCase rt (tc, ts) = Inr c \<Longrightarrow>
     prefix (''  test('' @ quoted (escapeString (tc_name tc)) @ '', async ({ page }) => {'' @ [nl]
             @ ''    // '' @ description_or_name tc @ [nl]) c"
  unfolding generatePlaywrightTestCase_def Let_def
  by (auto dest!: and_then_Inr)

lemma value_escaped:
  assumes "step_action s = Some a"
    and "a \<in> {''fill'', ''select''} \<or> a = ''assert'' \<and> step_value s \<noteq> JUndefined"
    and "generatePlaywrightStep rt s i = Inr c"
  shows "\<exists>v. toString rt (step_value s) = Inr v \<and> suffix (quoted (escapeString v) @ '');'') c"
  using assms unfolding generatePlaywrightStep_def Let_def statement_def
  by (auto split: if_splits dest!: and_then_Inr simp: suffix_def)

text \<open>
  C9, as the code has it. \<open>escapeString\<close> replaces each single quote by a backslash and
  the quote, each newline by a backslash and the letter n, and leaves every other
  character (the backslash included) as it is. The renderer applies it to the texts it
  puts between quotes: the name of the group in the suite header, the name of the test
  case, and the value of a fill, select or assert step. The description of a step and the
  description comment of a test case are embedded as they are, not escaped.
\<close>

theorem escaping_scope:
  "escapeString s =
     concat (map (\<lambda>c. if c = quote then [backslash, quote]
                        else if c = nl then [backslash, CHR ''n''] else [c]) s)
   \<and> (generatePlaywrightTest rt g tests lang = Inr file \<longrightarrow>
        prefix (imports_line @ ''test.describe('' @ quoted (escapeString g)) file)
   \<and> (generatePlaywrightTestCase rt (tc, ts) = Inr block \<longrightarrow>
        prefix (''  test('' @ quoted (escapeString (tc_name tc)) @ '', async ({ page }) => {'' @ [nl]
                @ ''    // '' @ description_or_name tc @ [nl]) block)
   \<and> (generatePlaywrightStep rt step i = Inr code \<longrightarrow>
        prefix (''// '' @ step_description step @ [nl]) code
        \<and> (step_action step \<in> {Some ''fill'', Some ''select''}
            \<or> step_action step = Some ''assert'' \<and> step_value step \<noteq> JUndefined \<longrightarrow>
           (\<exists>v. toString rt (step_value step) = Inr v
                \<and> suffix (quoted (escapeString v) @ '');'') code)))"
proof (intro conjI impI)
  show "escapeString s =
     concat (map (\<lambda>c. if c = quote then [backslash, quote]
                        else if c = nl then [backslash, CHR ''n''] else [c]) s)"
    by (rule escapeString_map)
next
  assume "generatePlaywrightTest rt g tests lang = Inr file"
  then show "prefix (imports_line @ ''test.describe('' @ quoted (escapeString g)) file"
    by (rule suite_name_escaped)
next
  assume "generatePlaywrightTestCase rt (tc, ts) = Inr block"
  then show "prefix (''  test('' @ quoted (escapeString (tc_name tc)) @ '', async ({ page }) => {'' @ [nl]
                @ ''    // '' @ description_or_name tc @ [nl]) block"
    by (rule test_name_escaped)
next
  assume "generatePlaywrightStep rt step i = Inr code"
  then show "prefix (''// '' @ step_description step @ [nl]) code"
    by (rule step_comment_verbatim)
next
  assume c: "generatePlaywrightStep rt step i = Inr code"
    and a: "step_action step \<in> {Some ''fill'', Some ''select''}
            \<or> step_action step = Some ''assert'' \<and> step_value step \<noteq> JUndefined"
  from a obtain act where "step_action step = Some act"
    "act \<in> {''fill'', ''select''} \<or> act = ''assert'' \<and> step_value step \<noteq> JUndefined"
    by auto
  from value_escaped [OF this c]
  show "\<exists>v. toString rt (step_value step) = Inr v \<and> suffix (quoted (escapeString v) @ '');'') code" .
qed

theorem escaping_scope_witness:
  "generatePlaywrightTest example_runtime ''Bob's'' [] Typescript
     = Inr (imports_line @ ''test.describe('' @ quoted (''Bob'' @ [backslash, quote] @ ''s'') @ '', () => {'' @ [nl, nl] @ ''});'' @ [nl])
   \<and> prefix (imports_line @ ''test.describe('' @ quoted (escapeString ''Bob's''))
        (imports_line @ ''test.describe('' @ quoted (''Bob'' @ [backslash, quote] @ ''s'') @ '', () => {'' @ [nl, nl] @ ''});'' @ [nl])
   \<and> generatePlaywrightStep example_runtime example_fill_step 0
     = Inr (''// Enter the user's name'' @ [nl] @ ''    await page.fill('' @ quoted ''#name'' @ '', ''
            @ quoted (''O'' @ [backslash, quote] @ ''Brien'') @ '');'')
   \<and> step_action example_fill_step = Some ''fill''
   \<and> prefix (''// '' @ step_description example_fill_step @ [nl])
        (''// Enter the user's name'' @ [nl] @ ''    await page.fill('' @ quoted ''#name'' @ '', ''
            @ quoted (''O'' @ [backslash, quote] @ ''Brien'') @ '');'')
   \<and> (\<exists>v. toString example_runtime (step_value example_fill_step) = Inr v
          \<and> suffix (quoted (escapeString v) @ '');'')
               (''// Enter the user's name'' @ [nl] @ ''    await page.fill('' @ quoted ''#name'' @ '', ''
                @ quoted (''O'' @ [backslash, quote] @ ''Brien'') @ '');''))"
  (is "?f \<and> ?pf \<and> ?c \<and> ?a \<and> ?pc \<and> ?sc")
proof -
  have f: ?f
    by (simp add: generatePlaywrightTest_def render_defs)
  have c: ?c
    by (simp add: render_defs example_defs)
  have a: ?a
    by (simp add: step_action_def example_fill_step_def)
  then have a': "step_action example_fill_step \<in> {Some ''fill'', Some ''select''}
      \<or> step_action example_fill_step = Some ''assert'' \<and> step_value example_fill_step \<noteq> JUndefined"
    by simp
  note T = escaping_scope [where rt = example_runtime and g = "''Bob's''" and tests = "[]"
      and lang = Typescript and step = example_fill_step and i = 0]
  from T f have ?pf by blast
  moreover from T c a' have "?pc \<and> ?sc" by blast
  ultimately show ?thesis using f c a by blast
qed


text \<open>
  C9 as the specification states it fails for the description of a step: it is free text,
  and it reaches the generated source with its single quote unchanged; the escaped form
  does not occur in the rendered step.
\<close>

theorem description_embedded_verbatim_counterexample:
  "generatePlaywrightStep example_runtime
       (WebStep \<lparr>ws_action = ''click'', ws_selector = Some ''#go'', ws_target = None,
                 ws_value = JUndefined, ws_description = ''Don't wait''\<rparr>) 0
     = Inr (''// Don't wait'' @ [nl] @ ''    await page.click('' @ [quote] @ ''#go'' @ [quote] @ '');'')
   \<and> escapeString ''Don't wait'' = ''Don'' @ [backslash, quote] @ ''t wait''
   \<and> \<not> sublist (escapeString ''Don't wait'')
         (''// Don't wait'' @ [nl] @ ''    await page.click('' @ [quote] @ ''#go'' @ [quote] @ '');'')"
  by (simp add: render_defs example_runtime_def sublist_Cons_right)

subsection \<open>The loop over the groups\<close>











lemmas obj_defs = obj_get_def obj_put_def is_array_index_def is_digit_def digit_chars_def
  nat_of_digits_def digit_value_def

lemmas generate_defs = example_request_def example_groups_def example_defs generateTestFile_def
  render_def generatePlaywrightTest_def generatePlaywrightTestCase_def render_defs file_name_def
  sanitizeFileName_def to_lower_def upper_chars_def lower_chars_def
  collapse_runs_def is_lower_alnum_def digit_chars_def strip_hyphens_def drop_last_hyphen_def
  example_fs_def description_or_name_def imports_line_def Let_def

lemma example_grouping:
  "groupTestCases (test_cases (example_request fw)) (request_steps (example_request fw)) = Inr example_groups"
  by (simp add: groupTestCases_def example_request_def example_groups_def example_case_def
      example_steps_def group_name_def obj_defs object_prototype_keys_def Let_def)

lemma example_mkdir:
  "mkdir (example_fs [''out/search.spec.ts'']) (output_path (example_request fw)) [] = (None, [])"
  "mkdir (example_fs []) (output_path (example_request fw)) [] = (None, [])"
  by (simp_all add: example_fs_def example_request_def)


subsection \<open>The framework \<open>both\<close>\<close>







subsection \<open>Test cases without steps\<close>

lemma find_None_has_steps: "find (\<lambda>s. test_case_id s = tc_id tc) sts = None \<longleftrightarrow> \<not> has_steps sts tc"
  by (auto simp: find_None_iff has_steps_def)

lemma group_loop_filter:
  "group_loop sts tcs groups = group_loop sts (filter (has_steps sts) tcs) groups"
proof (induction tcs arbitrary: groups)
  case Nil
  show ?case by simp
next
  case (Cons tc tcs)
  show ?case
  proof (cases "find (\<lambda>s. test_case_id s = tc_id tc) sts")
    case None
    then have "\<not> has_steps sts tc" by (simp add: find_None_has_steps)
    with None Cons.IH show ?thesis by simp
  next
    case (Some ts)
    then have "has_steps sts tc" using find_None_has_steps [of tc sts] by simp
    with Some Cons.IH show ?thesis
      by (simp add: Let_def split: option.splits)
  qed
qed

lemma groupTestCases_filter:
  "groupTestCases (filter (has_steps sts) tcs) sts = groupTestCases tcs sts"
  unfolding groupTestCases_def by (rule group_loop_filter [symmetric])

lemma set_obj_insert_index: "set (obj_insert_index k v obj) = insert (k, v) (set obj)"
  by (induction k v obj rule: obj_insert_index.induct) auto

lemma set_obj_put: "set (obj_put k v obj) \<subseteq> insert (k, v) (set obj)"
  by (auto simp: obj_put_def set_obj_insert_index split: if_splits)

lemma obj_get_mem: "obj_get obj k = Some v \<Longrightarrow> (k, v) \<in> set obj"
  by (simp add: obj_get_def map_of_SomeD)

lemma group_loop_matched:
  "group_loop sts tcs groups = Inr result \<Longrightarrow>
   \<forall>b \<in> set groups. \<forall>t \<in> set (snd b). matched_entry sts t \<Longrightarrow>
   \<forall>b \<in> set result. \<forall>t \<in> set (snd b). matched_entry sts t"
proof (induction tcs arbitrary: groups)
  case Nil
  then show ?case by simp
next
  case (Cons tc tcs)
  show ?case
  proof (cases "find (\<lambda>s. test_case_id s = tc_id tc) sts")
    case None
    with Cons show ?thesis by simp
  next
    case (Some ts)
    then have m: "matched_entry sts (tc, ts)"
      by (auto simp: matched_entry_def find_Some_iff)
    show ?thesis
    proof (cases "obj_get groups (group_name tc)")
      case None
      with Some Cons.prems(1) have
        l: "group_loop sts tcs (obj_put (group_name tc) [(tc, ts)] groups) = Inr result"
        by (simp add: Let_def split: if_splits)
      have "\<forall>b \<in> set (obj_put (group_name tc) [(tc, ts)] groups). \<forall>t \<in> set (snd b). matched_entry sts t"
        using set_obj_put [of "group_name tc" "[(tc, ts)]" groups] Cons.prems(2) m by fastforce
      from Cons.IH [OF l this] show ?thesis .
    next
      case (Some es)
      with \<open>find (\<lambda>s. test_case_id s = tc_id tc) sts = Some ts\<close> Cons.prems(1) have
        l: "group_loop sts tcs (obj_put (group_name tc) (es @ [(tc, ts)]) groups) = Inr result"
        by (simp add: Let_def)
      from Some have "(group_name tc, es) \<in> set groups" by (rule obj_get_mem)
      with Cons.prems(2) have "\<forall>t \<in> set es. matched_entry sts t" by fastforce
      then have "\<forall>b \<in> set (obj_put (group_name tc) (es @ [(tc, ts)]) groups). \<forall>t \<in> set (snd b). matched_entry sts t"
        using set_obj_put [of "group_name tc" "es @ [(tc, ts)]" groups] Cons.prems(2) m by fastforce
      from Cons.IH [OF l this] show ?thesis .
    qed
  qed
qed

lemma generate_filter:
  "generate rt fs (req\<lparr>test_cases := filter (has_steps (request_steps req)) (test_cases req)\<rparr>) st =
     (case generate rt fs req st of
        (r, s) \<Rightarrow> (r\<lparr>total_tests := total_tests (fst (generate rt fs
            (req\<lparr>test_cases := filter (has_steps (request_steps req)) (test_cases req)\<rparr>) st))\<rparr>, s))"
  by (simp add: generate_def groupTestCases_filter failed_def split: prod.splits option.splits sum.splits)

text \<open>
  C2, as the code has it. A test case that no element of the steps refers to is in no
  group: the files, the errors and the file system are those of the request without
  such test cases. Where the output directory is created and the grouping completes,
  \<open>total_tests\<close> is the number of test cases of the request, the unmatched ones included.
\<close>

theorem unmatched_cases_are_left_out:
  "(let kept = filter (has_steps (request_steps req)) (test_cases req);
        r = fst (generate rt fs req st);
        r' = fst (generate rt fs (req\<lparr>test_cases := kept\<rparr>) st) in
      files_generated r = files_generated r' \<and> errors r = errors r' \<and> success r = success r'
    \<and> snd (generate rt fs req st) = snd (generate rt fs (req\<lparr>test_cases := kept\<rparr>) st)
    \<and> (mkdir fs (output_path req) st = (None, st1)
        \<and> groupTestCases (test_cases req) (request_steps req) = Inr groups \<longrightarrow>
         (\<forall>b \<in> set groups. \<forall>t \<in> set (snd b). matched_entry (request_steps req) t)
         \<and> total_tests r = length (test_cases req)))"
proof -
  let ?kept = "filter (has_steps (request_steps req)) (test_cases req)"
  obtain r s where g: "generate rt fs req st = (r, s)" by (cases "generate rt fs req st")
  have g': "generate rt fs (req\<lparr>test_cases := ?kept\<rparr>) st =
      (r\<lparr>total_tests := total_tests (fst (generate rt fs (req\<lparr>test_cases := ?kept\<rparr>) st))\<rparr>, s)"
    using generate_filter [of rt fs req st] by (simp add: g)
  have same: "files_generated r = files_generated (fst (generate rt fs (req\<lparr>test_cases := ?kept\<rparr>) st))
      \<and> errors r = errors (fst (generate rt fs (req\<lparr>test_cases := ?kept\<rparr>) st))
      \<and> success r = success (fst (generate rt fs (req\<lparr>test_cases := ?kept\<rparr>) st))
      \<and> s = snd (generate rt fs (req\<lparr>test_cases := ?kept\<rparr>) st)"
    by (subst (1 2 3 4) g') simp
  have grp: "\<forall>b \<in> set groups. \<forall>t \<in> set (snd b). matched_entry (request_steps req) t"
    if "groupTestCases (test_cases req) (request_steps req) = Inr groups"
    using that group_loop_matched [of "request_steps req" "test_cases req" "[]" groups]
    by (simp add: groupTestCases_def)
  have tot: "total_tests r = length (test_cases req)"
    if "mkdir fs (output_path req) st = (None, st1)"
      and "groupTestCases (test_cases req) (request_steps req) = Inr groups"
    using that g by (auto simp: generate_def Let_def split: prod.splits)
  show ?thesis
    unfolding Let_def g fst_conv snd_conv
    using same grp tot by blast
qed

lemma mkdir_failure_counts_nothing:
  assumes "mkdir fs (output_path req) st = (Some m, st1)"
  shows "generate rt fs req st = (failed m, st1)"
  using assms by (simp add: generate_def)


text \<open>The example request: \<open>TC004\<close> has no steps, appears in no group and in no file, and is
  counted.\<close>

theorem unmatched_cases_are_left_out_witness:
  "mkdir (example_fs []) (output_path (example_request Playwright)) [] = (None, [])
   \<and> groupTestCases (test_cases (example_request Playwright)) (request_steps (example_request Playwright))
       = Inr example_groups
   \<and> \<not> has_steps (request_steps (example_request Playwright))
         (example_case ''TC004'' ''Orphan'' (Some [''auth'']))
   \<and> map gf_test_count (files_generated (fst (generate example_runtime (example_fs [])
                                                (example_request Playwright) [])))
       = [1, 1, 1]
   \<and> total_tests (fst (generate example_runtime (example_fs []) (example_request Playwright) [])) = 4
   \<and> (let kept = filter (has_steps (request_steps (example_request Playwright)))
                    (test_cases (example_request Playwright));
           r = fst (generate example_runtime (example_fs []) (example_request Playwright) []);
           r' = fst (generate example_runtime (example_fs [])
                       ((example_request Playwright)\<lparr>test_cases := kept\<rparr>) []) in
         files_generated r = files_generated r' \<and> errors r = errors r' \<and> success r = success r'
       \<and> (\<forall>b \<in> set example_groups. \<forall>t \<in> set (snd b).
             matched_entry (request_steps (example_request Playwright)) t)
       \<and> total_tests r = length (test_cases (example_request Playwright)))"
  (is "?m \<and> ?g \<and> ?orphan \<and> ?counts \<and> ?total \<and> ?rest")
proof -
  have m: ?m by (rule example_mkdir)
  have g: ?g by (rule example_grouping)
  have orphan: ?orphan
    by (simp add: has_steps_def example_request_def example_case_def example_steps_def)
  have counts: ?counts
    by (simp add: generate_def example_grouping example_mkdir) (simp add: generate_defs)
  have total: ?total
    by (simp add: generate_def example_grouping example_mkdir split: prod.splits)
       (simp add: example_request_def)
  from unmatched_cases_are_left_out [where rt = example_runtime and fs = "example_fs []"
      and req = "example_request Playwright" and st = "[]" and ?st1.0 = "[]"
      and groups = example_groups] m g
  have ?rest unfolding Let_def by blast
  with m g orphan counts total show ?thesis by blast
qed

text \<open>
  C2 as the specification states it fails where the output directory cannot be created:
  the result then counts no tests at all, whatever the request holds.
\<close>

theorem total_tests_zero_counterexample:
  "total_tests (fst (generate example_runtime (example_fs [''out'']) (example_request Playwright) [])) = 0
   \<and> length (test_cases (example_request Playwright)) = 4"
  by (simp add: generate_def example_fs_def example_request_def failed_def)

section \<open>Properties of the parser\<close>

subsection \<open>Rows\<close>

lemma and_then_simps [simp]:
  "and_then (Inr x) f = f x"
  "and_then (Inl e) f = Inl e"
  by (simp_all add: and_then_def)

lemma sequence_row_parts:
  "sequence (map (\<lambda>(key, v). and_then (toString rt v) (\<lambda>s. Inr (key @ '': '' @ s)))
              (map (\<lambda>(k, v). (k, JStr v)) xs))
     = Inr (map (\<lambda>(k, v). k @ '': '' @ v) xs)"
  by (induction xs) (auto simp: and_then_def)

lemma generateTestName_row:
  "generateTestName rt (row_object (plain_row r)) (JStr e) = Inr (row_name r e)"
proof -
  have e: "entries rt (row_object (plain_row r)) = Inr (map (\<lambda>(k, v). (k, JStr v)) r)"
    by (simp add: entries_def row_object_def plain_row_def)
  have t: "take 2 (map (\<lambda>(k, v). (k, JStr v)) r) = map (\<lambda>(k, v). (k, JStr v)) (take 2 r)"
    by (simp add: take_map)
  show ?thesis
    unfolding generateTestName_def e and_then_simps t sequence_row_parts Let_def
    by (simp add: row_name_def)
qed

lemma first_truthy_Some: "first_truthy cs = Some s \<Longrightarrow> s \<noteq> []"
  by (induction cs rule: first_truthy.induct) (auto split: if_splits)

lemma parseValue_Text: "\<exists>x. parseValue (Text v) = Inr x"
  by (simp add: parseValue_def)

lemma condition_step_plain:
  "\<exists>c'. (case row_get (plain_row r) key of
            None \<Rightarrow> Inr c
          | Some x \<Rightarrow>
              if trim (toLowerCase rt key) \<notin> set specialColumns \<and> cell_truthy x
              then and_then (parseValue x) (\<lambda>v. Inr (obj_assign key v c))
              else Inr c) = Inr c'"
proof (cases "obj_get r key")
  case None
  then show ?thesis by (simp add: row_get_def plain_row_def)
next
  case (Some v)
  obtain x where "parseValue (Text v) = Inr x" using parseValue_Text by blast
  with Some show ?thesis by (simp add: row_get_def plain_row_def)
qed

lemma conditions_loop_plain:
  "\<exists>c'. foldl (\<lambda>acc key.
              and_then acc (\<lambda>conditions.
                case row_get (plain_row r) key of
                  None \<Rightarrow> Inr conditions
                | Some c \<Rightarrow>
                    if trim (toLowerCase rt key) \<notin> set specialColumns \<and> cell_truthy c
                    then and_then (parseValue c) (\<lambda>v. Inr (obj_assign key v conditions))
                    else Inr conditions))
       (Inr c) keys = Inr c'"
proof (induction keys arbitrary: c)
  case Nil
  show ?case by simp
next
  case (Cons key keys)
  from condition_step_plain [where r = r and key = key and c = c and rt = rt] obtain c1 where
    "(case row_get (plain_row r) key of
            None \<Rightarrow> Inr c
          | Some x \<Rightarrow>
              if trim (toLowerCase rt key) \<notin> set specialColumns \<and> cell_truthy x
              then and_then (parseValue x) (\<lambda>v. Inr (obj_assign key v c))
              else Inr c) = Inr c1"
    by blast
  with Cons [of c1] show ?case by simp
qed

lemma row_conditions_plain: "\<exists>c. row_conditions rt (plain_row r) = Inr c"
  unfolding row_conditions_def by (rule conditions_loop_plain)

text \<open>What a row converts to, when it converts.\<close>

lemma convertRowToTestCase_Inr:
  assumes "convertRowToTestCase rt rw i = Inr tc"
  shows "\<exists>name conditions.
     (case name_cell (fst rw) of
        Some n \<Rightarrow> Inr n
      | None \<Rightarrow> generateTestName rt (row_object rw) (JStr (expected_cell (fst rw)))) = Inr name
     \<and> row_conditions rt rw = Inr conditions
     \<and> tc = \<lparr>tc_id = row_id (fst rw) i,
             tc_name = name,
             tc_description = Some (or_else (first_truthy [obj_get (fst rw) ''description'']) []),
             tc_conditions = conditions,
             tc_actions =
               split_list (or_else (first_truthy [obj_get (fst rw) ''action'', obj_get (fst rw) ''actions'']) []),
             tc_expected_results = split_list (expected_cell (fst rw)),
             tc_priority =
               Some (or_else (first_truthy [map_option (toLowerCase rt) (obj_get (fst rw) ''priority'')])
                       ''medium''),
             tc_tags = Some (case first_truthy [obj_get (fst rw) ''tags''] of
                               None \<Rightarrow> []
                             | Some t \<Rightarrow> map trim (split_on CHR '','' t))\<rparr>"
  using assms
  unfolding convertRowToTestCase_def Let_def name_cell_def [symmetric] id_cell_def [symmetric]
    expected_cell_def [symmetric] row_id_def [symmetric] and_then_def
  by (auto split: sum.splits)

lemma convertRowToTestCase_plain:
  "convertRowToTestCase rt (plain_row r) i =
     Inr \<lparr>tc_id = row_id r i,
          tc_name = (case name_cell r of Some n \<Rightarrow> n | None \<Rightarrow> row_name r (expected_cell r)),
          tc_description = Some (or_else (first_truthy [obj_get r ''description'']) []),
          tc_conditions = projr (row_conditions rt (plain_row r)),
          tc_actions = split_list (or_else (first_truthy [obj_get r ''action'', obj_get r ''actions'']) []),
          tc_expected_results = split_list (expected_cell r),
          tc_priority =
            Some (or_else (first_truthy [map_option (toLowerCase rt) (obj_get r ''priority'')]) ''medium''),
          tc_tags = Some (case first_truthy [obj_get r ''tags''] of
                            None \<Rightarrow> []
                          | Some t \<Rightarrow> map trim (split_on CHR '','' t))\<rparr>"
proof -
  obtain c where c: "row_conditions rt (plain_row r) = Inr c"
    using row_conditions_plain by blast
  have f: "fst (plain_row r) = r" by (simp add: plain_row_def)
  show ?thesis
  proof (cases "name_cell r")
    case None
    then show ?thesis
      unfolding convertRowToTestCase_def Let_def f name_cell_def [symmetric] id_cell_def [symmetric]
        expected_cell_def [symmetric] row_id_def [symmetric]
      by (simp add: generateTestName_row c)
  next
    case (Some n)
    then show ?thesis
      unfolding convertRowToTestCase_def Let_def f name_cell_def [symmetric] id_cell_def [symmetric]
        expected_cell_def [symmetric] row_id_def [symmetric]
      by (simp add: c)
  qed
qed

lemma convertRowToTestCase_total: "\<exists>tc. convertRowToTestCase rt (plain_row r) i = Inr tc"
  by (simp add: convertRowToTestCase_plain)

lemma convertRowToTestCase_id:
  "convertRowToTestCase rt rw i = Inr tc \<Longrightarrow> tc_id tc = row_id (fst rw) i"
  by (drule convertRowToTestCase_Inr) auto

lemma convertRowToTestCase_name:
  "convertRowToTestCase rt (plain_row r) i = Inr tc \<Longrightarrow>
     tc_name tc = (case name_cell r of Some n \<Rightarrow> n | None \<Rightarrow> row_name r (expected_cell r))"
  by (auto simp: convertRowToTestCase_plain)

lemma priority_cases:
  "or_else (first_truthy [map_option f c]) ''medium'' =
     (case c of None \<Rightarrow> ''medium'' | Some p \<Rightarrow> if f p = [] then ''medium'' else f p)"
  by (cases c) (simp_all add: or_else_def)

lemma convertRowToTestCase_priority:
  "convertRowToTestCase rt rw i = Inr tc \<Longrightarrow>
     tc_priority tc =
       Some (case obj_get (fst rw) ''priority'' of
               None \<Rightarrow> ''medium''
             | Some p \<Rightarrow> if toLowerCase rt p = [] then ''medium'' else toLowerCase rt p)"
  by (drule convertRowToTestCase_Inr) (auto simp: priority_cases)


lemma digit_value_digit_of: "d < 10 \<Longrightarrow> digit_value (digit_of d) = d"
proof -
  assume "d < 10"
  then have "d \<in> {0, 1, 2, 3, 4, 5, 6, 7, 8, 9}" by auto
  then show ?thesis
    by (auto simp: digit_value_def digit_of_def digit_chars_def)
qed

lemma nat_of_digits_snoc: "nat_of_digits (s @ [c]) = 10 * nat_of_digits s + digit_value c"
  by (simp add: nat_of_digits_def)

lemma nat_of_digits_string_of_nat: "nat_of_digits (string_of_nat n) = n"
proof (induction n rule: string_of_nat.induct)
  case (1 n)
  show ?case
  proof (cases "n < 10")
    case True
    then show ?thesis
      by (subst string_of_nat.simps) (simp add: nat_of_digits_def digit_value_digit_of)
  next
    case False
    with 1 have "nat_of_digits (string_of_nat (n div 10)) = n div 10" by simp
    with False show ?thesis
      by (subst string_of_nat.simps) (simp add: nat_of_digits_snoc digit_value_digit_of)
  qed
qed

lemma nat_of_digits_zeros: "nat_of_digits (replicate k CHR ''0'' @ s) = nat_of_digits s"
proof (induction k)
  case 0
  show ?case by simp
next
  case (Suc k)
  have "foldl (\<lambda>n c. 10 * n + digit_value c) 0 (CHR ''0'' # replicate k CHR ''0'' @ s)
      = foldl (\<lambda>n c. 10 * n + digit_value c) 0 (replicate k CHR ''0'' @ s)"
    by (simp add: digit_value_def digit_chars_def)
  with Suc show ?case by (simp add: nat_of_digits_def)
qed

lemma auto_id_value: "nat_of_digits (drop 2 (auto_id i)) = i + 1"
  by (simp add: auto_id_def padStart_def nat_of_digits_zeros nat_of_digits_string_of_nat)

lemma auto_id_inj: "auto_id i = auto_id j \<Longrightarrow> i = j"
proof -
  assume "auto_id i = auto_id j"
  then have "nat_of_digits (drop 2 (auto_id i)) = nat_of_digits (drop 2 (auto_id j))" by simp
  then show "i = j" by (simp add: auto_id_value)
qed

lemma auto_id_nonempty: "auto_id i \<noteq> []"
  by (simp add: auto_id_def)

lemma sequence_total:
  "\<forall>x \<in> set xs. \<exists>y. f x = Inr y \<Longrightarrow> sequence (map f xs) = Inr (map (\<lambda>x. projr (f x)) xs)"
  by (induction xs) auto

lemma sequence_Inr:
  "sequence rs = Inr ys \<Longrightarrow> length ys = length rs \<and> (\<forall>i < length rs. rs ! i = Inr (ys ! i))"
proof (induction rs arbitrary: ys)
  case Nil
  then show ?case by simp
next
  case (Cons r rs)
  then obtain x xs where r: "r = Inr x" and xs: "sequence rs = Inr xs" and ys: "ys = x # xs"
    by (auto split: sum.splits)
  from Cons.IH [OF xs] r ys show ?case
    by (auto simp: nth_Cons split: nat.splits)
qed

lemma convertRowsToTestCases_plain:
  "convertRowsToTestCases rt (map plain_row rows) =
     Inr (map (\<lambda>(r, i). projr (convertRowToTestCase rt (plain_row r) i)) (zip rows [0 ..< length rows]))"
proof -
  have "\<forall>x \<in> set (zip rows [0 ..< length rows]).
      \<exists>y. (\<lambda>(r, index). convertRowToTestCase rt (plain_row r) index) x = Inr y"
    using convertRowToTestCase_total by (auto simp: split_def)
  from sequence_total [OF this] show ?thesis
    by (simp add: convertRowsToTestCases_def split_def zip_map1 comp_def)
qed

lemma convertRowsToTestCases_projr:
  "convertRowsToTestCases rt (map plain_row rows) =
     Inr (projr (convertRowsToTestCases rt (map plain_row rows)))"
  unfolding convertRowsToTestCases_plain by simp

lemma projr_id: "tc_id (projr (convertRowToTestCase rt (plain_row r) i)) = row_id r i"
  by (simp add: convertRowToTestCase_plain)

text \<open>The ids of the test cases of a table are those of its rows, whenever the rows convert.\<close>

lemma convertRowsToTestCases_ids:
  assumes "convertRowsToTestCases rt rws = Inr tcs"
  shows "map tc_id tcs = ids_of_rows (map fst rws) \<and> length tcs = length rws"
proof -
  let ?rs = "map (\<lambda>(rw, index). convertRowToTestCase rt rw index) (zip rws [0 ..< length rws])"
  from assms have s: "sequence ?rs = Inr tcs" by (simp add: convertRowsToTestCases_def)
  from sequence_Inr [OF s] have len: "length tcs = length rws"
    and each: "\<forall>i < length rws. convertRowToTestCase rt (rws ! i) i = Inr (tcs ! i)"
    by auto
  have "map tc_id tcs = ids_of_rows (map fst rws)"
  proof (rule nth_equalityI)
    show "length (map tc_id tcs) = length (ids_of_rows (map fst rws))"
      by (simp add: len ids_of_rows_def)
  next
    fix i assume "i < length (map tc_id tcs)"
    then have i: "i < length rws" by (simp add: len)
    with each have "convertRowToTestCase rt (rws ! i) i = Inr (tcs ! i)" by simp
    from convertRowToTestCase_id [OF this] i len
    show "map tc_id tcs ! i = ids_of_rows (map fst rws) ! i"
      by (simp add: ids_of_rows_def)
  qed
  with len show ?thesis by simp
qed

lemma parseMarkdownTable_rows:
  "parseMarkdownTable rt header rows =
     convertRowsToTestCases rt
       (map plain_row (map (row_data (map (\<lambda>h. trim (toLowerCase rt h)) header)) rows))"
  by (simp add: parseMarkdownTable_def convertRowsToTestCases_def zip_map1 split_def comp_def Let_def
      plain_row_def)

lemma markdown_loop_eq:
  "\<exists>descr'. markdown_loop rt tokens name0 descr tcs =
     Inr (if name0 \<noteq> [] then name0 else first_heading tokens, descr',
          tcs @ concat (map (\<lambda>rows. projr (convertRowsToTestCases rt (map plain_row rows)))
                          (table_rows rt tokens)))"
proof (induction tokens arbitrary: name0 descr tcs)
  case Nil
  show ?case by simp
next
  case (Cons t tokens)
  show ?case
  proof (cases t)
    case (Heading depth htext)
    from Cons [of "if depth = 1 \<and> name0 = [] then htext else name0" descr tcs] Heading
    show ?thesis by (auto split: if_splits)
  next
    case (Paragraph ptext)
    from Cons [of name0 "if descr = None \<or> descr = Some [] then Some ptext else descr" tcs] Paragraph
    show ?thesis by (auto split: if_splits)
  next
    case (Table header rows)
    let ?rows = "map (row_data (map (\<lambda>h. trim (toLowerCase rt h)) header)) rows"
    let ?cases = "projr (convertRowsToTestCases rt (map plain_row ?rows))"
    from Cons [of name0 descr "tcs @ ?cases"]
    obtain d' where IH: "markdown_loop rt tokens name0 descr (tcs @ ?cases) =
       Inr (if name0 \<noteq> [] then name0 else first_heading tokens, d',
            (tcs @ ?cases) @ concat (map (\<lambda>rows. projr (convertRowsToTestCases rt (map plain_row rows)))
                                       (table_rows rt tokens)))"
      by blast
    have "parseMarkdownTable rt header rows = Inr ?cases"
      unfolding parseMarkdownTable_rows by (rule convertRowsToTestCases_projr)
    then have "markdown_loop rt (t # tokens) name0 descr tcs =
        markdown_loop rt tokens name0 descr (tcs @ ?cases)"
      by (simp add: Table)
    with IH show ?thesis by (simp add: Table)
  next
    case Other
    from Cons [of name0 descr tcs] Other show ?thesis by (auto split: if_splits)
  qed
qed

lemma parseMarkdown_eq:
  "\<exists>d'. parseMarkdown rt tokens filePath =
     Inr \<lparr>feature = (if extractFeatureName filePath \<noteq> [] then extractFeatureName filePath
                     else first_heading tokens),
          description = d',
          table_cases = concat (map (\<lambda>rows. projr (convertRowsToTestCases rt (map plain_row rows)))
                                  (table_rows rt tokens)),
          table_metadata = \<lparr>md_source = filePath, md_format = Markdown, md_row_count = None\<rparr>\<rparr>"
proof -
  from markdown_loop_eq [of rt tokens "extractFeatureName filePath" None "[]"]
  obtain d' where "markdown_loop rt tokens (extractFeatureName filePath) None [] =
     Inr (if extractFeatureName filePath \<noteq> [] then extractFeatureName filePath else first_heading tokens, d',
          [] @ concat (map (\<lambda>rows. projr (convertRowsToTestCases rt (map plain_row rows)))
                         (table_rows rt tokens)))"
    by blast
  then show ?thesis by (simp add: parseMarkdown_def)
qed

lemma first_heading_found:
  assumes "tokens = pre @ Heading 1 text # post" and "text \<noteq> []"
    and "\<forall>x \<in> set pre. \<forall>s. x = Heading 1 s \<longrightarrow> s = []"
  shows "first_heading tokens = text"
  using assms
proof (induction pre arbitrary: tokens)
  case Nil
  then show ?case by simp
next
  case (Cons x pre)
  then have "first_heading (pre @ Heading 1 text # post) = text" by simp
  with Cons.prems show ?case by (cases x) auto
qed

lemma ids_of_rows_length: "length (ids_of_rows rows) = length rows"
  by (simp add: ids_of_rows_def)

lemma ids_of_rows_nth: "i < length rows \<Longrightarrow> ids_of_rows rows ! i = row_id (rows ! i) i"
  by (simp add: ids_of_rows_def)

lemma row_id_nonempty: "row_id r i \<noteq> []"
  by (cases "id_cell r") (auto simp: row_id_def or_else_def auto_id_nonempty id_cell_def dest: first_truthy_Some)

lemma ids_of_rows_nonempty: "s \<in> set (ids_of_rows rows) \<Longrightarrow> s \<noteq> []"
  by (auto simp: ids_of_rows_def row_id_nonempty)

lemma ids_of_rows_distinct:
  assumes "\<forall>r \<in> set rows. id_cell r = None"
  shows "distinct (ids_of_rows rows)"
proof -
  have "ids_of_rows rows = map auto_id [0 ..< length rows]"
  proof (rule nth_equalityI)
    show "length (ids_of_rows rows) = length (map auto_id [0 ..< length rows])"
      by (simp add: ids_of_rows_length)
  next
    fix i assume "i < length (ids_of_rows rows)"
    then have i: "i < length rows" by (simp add: ids_of_rows_length)
    with assms have "id_cell (rows ! i) = None" by simp
    with i show "ids_of_rows rows ! i = map auto_id [0 ..< length rows] ! i"
      by (simp add: ids_of_rows_nth row_id_def or_else_def)
  qed
  moreover have "inj_on auto_id (set [0 ..< length rows])"
    by (rule inj_onI) (rule auto_id_inj)
  ultimately show ?thesis by (simp add: distinct_map)
qed

lemmas path_defs = extractFeatureName_def basename_without_ext_def last_portion_def extname_def
  strip_table_suffix_def replace_char_def is_word_char_def to_upper_def lower_chars_def
  upper_chars_def digit_chars_def suffix_to_prefix Let_def

text \<open>Unfolding \<open>strip_start\<close> on a string that is given.\<close>

lemma strip_start_Nil: "strip_start ws [] = []"
proof -
  have "find (\<lambda>w. w \<noteq> [] \<and> prefix w []) ws = None" by (simp add: find_None_iff)
  then show ?thesis by (subst strip_start.simps) simp
qed

lemma strip_start_Cons:
  "strip_start ws (c # cs) =
     (case find (\<lambda>w. w \<noteq> [] \<and> prefix w (c # cs)) ws of
        None \<Rightarrow> c # cs
      | Some w \<Rightarrow> strip_start ws (drop (length w) (c # cs)))"
  by (subst strip_start.simps) simp

lemmas trim_defs = trim_def white_space_def strip_start_Nil strip_start_Cons

lemmas row_defs = row_data_def obj_assign_def obj_defs id_cell_def name_cell_def expected_cell_def
  row_id_def ids_of_rows_def or_else_def example_runtime_def to_lower_def
  trim_defs upper_chars_def lower_chars_def

lemma replicate_small: "replicate 2 c = [c, c]" "replicate (Suc 0) c = [c]"
  by (simp_all add: numeral_2_eq_2)

lemma auto_id_small:
  "auto_id 0 = ''TC001''" "auto_id (Suc 0) = ''TC002''" "auto_id (Suc (Suc 0)) = ''TC003''"
  "auto_id 41 = ''TC042''" "auto_id 999 = ''TC1000''"
  by (simp_all add: auto_id_def padStart_def string_of_nat.simps digit_of_def digit_chars_def
      replicate_small)

subsection \<open>The feature name of a Markdown document\<close>

text \<open>
  C1, as the code has it. \<open>parseMarkdown\<close> always returns a table. Its feature name is the
  name derived from the file name whenever that name is not empty; only when it is empty
  is the feature name the text of the first level-1 heading with a text (first match
  wins), which is the heading that no such heading precedes.
\<close>

theorem markdown_feature_name:
  "(\<exists>t. parseMarkdown rt tokens filePath = Inr t
        \<and> feature t = (if extractFeatureName filePath \<noteq> [] then extractFeatureName filePath
                       else first_heading tokens))
   \<and> (\<forall>pre htext post.
         tokens = pre @ Heading 1 htext # post \<and> htext \<noteq> []
         \<and> (\<forall>x \<in> set pre. \<forall>s. x = Heading 1 s \<longrightarrow> s = []) \<longrightarrow>
         first_heading tokens = htext)"
proof (intro conjI allI impI)
  from parseMarkdown_eq [of rt tokens filePath]
  show "\<exists>t. parseMarkdown rt tokens filePath = Inr t
        \<and> feature t = (if extractFeatureName filePath \<noteq> [] then extractFeatureName filePath
                       else first_heading tokens)"
    by auto
next
  fix pre htext post
  assume "tokens = pre @ Heading 1 htext # post \<and> htext \<noteq> []
         \<and> (\<forall>x \<in> set pre. \<forall>s. x = Heading 1 s \<longrightarrow> s = [])"
  then show "first_heading tokens = htext"
    using first_heading_found [of tokens pre htext post] by blast
qed

theorem markdown_feature_name_witness:
  "extractFeatureName ''docs/-decision-table.md'' = []
   \<and> extractFeatureName ''docs/login.md'' = ''Login''
   \<and> (\<exists>t. parseMarkdown example_runtime
              [Other, Heading 2 ''Intro'', Heading 1 ''Login Feature'', Heading 1 ''Second'']
              ''docs/-decision-table.md'' = Inr t
          \<and> feature t = ''Login Feature'')
   \<and> (\<exists>t. parseMarkdown example_runtime
              [Other, Heading 2 ''Intro'', Heading 1 ''Login Feature'', Heading 1 ''Second'']
              ''docs/login.md'' = Inr t
          \<and> feature t = ''Login'')"
  (is "?e \<and> ?l \<and> ?a \<and> ?b")
proof -
  let ?tokens = "[Other, Heading 2 ''Intro'', Heading 1 ''Login Feature'', Heading 1 ''Second'']"
  have e: ?e by (simp add: path_defs)
  have l: ?l by (simp add: path_defs)
  note T1 = markdown_feature_name [where rt = example_runtime and tokens = ?tokens
      and filePath = "''docs/-decision-table.md''"]
  note T2 = markdown_feature_name [where rt = example_runtime and tokens = ?tokens
      and filePath = "''docs/login.md''"]
  have split: "?tokens = [Other, Heading 2 ''Intro''] @ Heading 1 ''Login Feature'' # [Heading 1 ''Second'']
      \<and> ''Login Feature'' \<noteq> []
      \<and> (\<forall>x \<in> set [Other, Heading 2 ''Intro'']. \<forall>s. x = Heading 1 s \<longrightarrow> s = [])"
    by simp
  from T1 [THEN conjunct2, rule_format, OF split]
  have h: "first_heading ?tokens = ''Login Feature''" .
  from T1 [THEN conjunct1] obtain t where
    "parseMarkdown example_runtime ?tokens ''docs/-decision-table.md'' = Inr t"
    "feature t = (if extractFeatureName ''docs/-decision-table.md'' \<noteq> []
                  then extractFeatureName ''docs/-decision-table.md'' else first_heading ?tokens)"
    by blast
  then have a: ?a by (simp add: e h)
  from T2 [THEN conjunct1] obtain t where
    "parseMarkdown example_runtime ?tokens ''docs/login.md'' = Inr t"
    "feature t = (if extractFeatureName ''docs/login.md'' \<noteq> []
                  then extractFeatureName ''docs/login.md'' else first_heading ?tokens)"
    by blast
  then have b: ?b by (simp add: l)
  from e l a b show ?thesis by (intro conjI)
qed

text \<open>
  C1 as the specification states it fails on the document of the repository's own parser
  test: the file is \<open>table.md\<close>, the heading says \<open>Login Feature\<close>, the feature is \<open>Table\<close>.
\<close>

theorem file_name_wins_counterexample:
  "map_sum id feature
     (parseMarkdown example_runtime
        [Heading 1 ''Login Feature'', Paragraph ''User login functionality'',
         Table [''ID'', ''Name'', ''Email'', ''Expected'']
           [[''TC001'', ''Valid Login'', ''test@example.com'', ''Dashboard''],
            [''TC002'', ''Invalid'', ''invalid@test.com'', ''Error'']]]
        ''/tmp/decision-table-tests/table.md'')
   = Inr ''Table''"
proof -
  have "extractFeatureName ''/tmp/decision-table-tests/table.md'' = ''Table''"
    by (simp add: path_defs)
  moreover from parseMarkdown_eq [of example_runtime
      "[Heading 1 ''Login Feature'', Paragraph ''User login functionality'',
         Table [''ID'', ''Name'', ''Email'', ''Expected'']
           [[''TC001'', ''Valid Login'', ''test@example.com'', ''Dashboard''],
            [''TC002'', ''Invalid'', ''invalid@test.com'', ''Error'']]]"
      "''/tmp/decision-table-tests/table.md''"]
  obtain t where "parseMarkdown example_runtime
        [Heading 1 ''Login Feature'', Paragraph ''User login functionality'',
         Table [''ID'', ''Name'', ''Email'', ''Expected'']
           [[''TC001'', ''Valid Login'', ''test@example.com'', ''Dashboard''],
            [''TC002'', ''Invalid'', ''invalid@test.com'', ''Error'']]]
        ''/tmp/decision-table-tests/table.md'' = Inr t"
    and "feature t = (if extractFeatureName ''/tmp/decision-table-tests/table.md'' \<noteq> []
                      then extractFeatureName ''/tmp/decision-table-tests/table.md''
                      else first_heading [Heading 1 ''Login Feature'', Paragraph ''User login functionality'',
         Table [''ID'', ''Name'', ''Email'', ''Expected'']
           [[''TC001'', ''Valid Login'', ''test@example.com'', ''Dashboard''],
            [''TC002'', ''Invalid'', ''invalid@test.com'', ''Error'']]])"
    by auto
  ultimately show ?thesis by simp
qed

subsection \<open>Ids\<close>

lemma parseCSV_plain:
  "parseCSV rt (map plain_row rows) filePath =
     Inr \<lparr>feature = extractFeatureName filePath, description = None,
          table_cases = projr (convertRowsToTestCases rt (map plain_row rows)),
          table_metadata = \<lparr>md_source = filePath, md_format = Csv, md_row_count = Some (length rows)\<rparr>\<rparr>"
  unfolding parseCSV_def convertRowsToTestCases_plain by simp

lemma parseCSV_Inr:
  assumes "parseCSV rt rws filePath = Inr t"
  shows "convertRowsToTestCases rt rws = Inr (table_cases t)"
  using assms by (auto simp: parseCSV_def and_then_def split: sum.splits)

lemma projr_rows_ids:
  "map tc_id (projr (convertRowsToTestCases rt (map plain_row rows))) = ids_of_rows rows"
  by (simp add: convertRowsToTestCases_plain ids_of_rows_def projr_id split_def)

lemma projr_rows_length: "length (projr (convertRowsToTestCases rt (map plain_row rows))) = length rows"
  by (simp add: convertRowsToTestCases_plain)

lemma markdown_ids:
  "map tc_id (concat (map (\<lambda>rows. projr (convertRowsToTestCases rt (map plain_row rows))) tables))
     = concat (map ids_of_rows tables)"
  by (induction tables) (simp_all add: projr_rows_ids)

lemma markdown_count:
  "length (concat (map (\<lambda>rows. projr (convertRowsToTestCases rt (map plain_row rows))) tables))
     = sum_list (map length tables)"
  by (induction tables) (simp_all add: projr_rows_length)

text \<open>
  C4, as the code has it. Parsing the \<open>N\<close> rows of a CSV file none of which has surplus
  fields gives \<open>N\<close> test cases, with the ids of the rows; so does parsing any CSV file
  whenever it returns. Parsing a Markdown document always returns, with one test case for
  every row of every table, the ids being those of the rows of each table, table after
  table, numbering anew within each table. Every id is non-empty; a row whose id cells
  are absent or empty gets \<open>TC\<close> and its 1-based index in decimal, padded with zeros to
  three digits; a row with an id cell keeps it. The ids of one table are pairwise distinct
  when no row of it supplies an id.
\<close>

theorem rows_get_ids:
  "(\<exists>t. parseCSV rt (map plain_row rows) filePath = Inr t
        \<and> map tc_id (table_cases t) = ids_of_rows rows
        \<and> length (table_cases t) = length rows)
   \<and> (\<forall>t. parseCSV rt rws filePath = Inr t \<longrightarrow>
          map tc_id (table_cases t) = ids_of_rows (map fst rws)
          \<and> length (table_cases t) = length rws)
   \<and> (\<exists>t. parseMarkdown rt tokens filePath = Inr t
        \<and> map tc_id (table_cases t) = concat (map ids_of_rows (table_rows rt tokens))
        \<and> length (table_cases t) = sum_list (map length (table_rows rt tokens)))
   \<and> length (ids_of_rows rows) = length rows
   \<and> (\<forall>s \<in> set (ids_of_rows rows). s \<noteq> [])
   \<and> (\<forall>i < length rows.
         (id_cell (rows ! i) = None \<longrightarrow> ids_of_rows rows ! i = auto_id i)
         \<and> (\<forall>s. id_cell (rows ! i) = Some s \<longrightarrow> ids_of_rows rows ! i = s))
   \<and> ((\<forall>r \<in> set rows. id_cell r = None) \<longrightarrow> distinct (ids_of_rows rows))
   \<and> auto_id i = ''TC'' @ replicate (3 - length (string_of_nat (i + 1))) CHR ''0'' @ string_of_nat (i + 1)
   \<and> nat_of_digits (string_of_nat (i + 1)) = i + 1"
proof (intro conjI)
  show "\<exists>t. parseCSV rt (map plain_row rows) filePath = Inr t
        \<and> map tc_id (table_cases t) = ids_of_rows rows
        \<and> length (table_cases t) = length rows"
    by (simp add: parseCSV_plain projr_rows_ids projr_rows_length)
next
  show "\<forall>t. parseCSV rt rws filePath = Inr t \<longrightarrow>
          map tc_id (table_cases t) = ids_of_rows (map fst rws)
          \<and> length (table_cases t) = length rws"
    using convertRowsToTestCases_ids parseCSV_Inr by blast
next
  from parseMarkdown_eq [of rt tokens filePath]
  show "\<exists>t. parseMarkdown rt tokens filePath = Inr t
        \<and> map tc_id (table_cases t) = concat (map ids_of_rows (table_rows rt tokens))
        \<and> length (table_cases t) = sum_list (map length (table_rows rt tokens))"
    by (auto simp: markdown_ids markdown_count)
next
  show "length (ids_of_rows rows) = length rows" by (rule ids_of_rows_length)
next
  show "\<forall>s \<in> set (ids_of_rows rows). s \<noteq> []" by (simp add: ids_of_rows_nonempty)
next
  show "\<forall>i < length rows.
         (id_cell (rows ! i) = None \<longrightarrow> ids_of_rows rows ! i = auto_id i)
         \<and> (\<forall>s. id_cell (rows ! i) = Some s \<longrightarrow> ids_of_rows rows ! i = s)"
    by (simp add: ids_of_rows_nth row_id_def or_else_def)
next
  show "(\<forall>r \<in> set rows. id_cell r = None) \<longrightarrow> distinct (ids_of_rows rows)"
    by (simp add: ids_of_rows_distinct)
next
  show "auto_id i = ''TC'' @ replicate (3 - length (string_of_nat (i + 1))) CHR ''0'' @ string_of_nat (i + 1)"
    by (simp add: auto_id_def padStart_def)
next
  show "nat_of_digits (string_of_nat (i + 1)) = i + 1" by (rule nat_of_digits_string_of_nat)
qed

theorem rows_get_ids_witness:
  "id_cell [(''email'', ''a'')] = None \<and> id_cell [(''id'', ''TC009''), (''email'', ''b'')] = Some ''TC009''
   \<and> (\<exists>t. parseCSV example_runtime
              (map plain_row [[(''email'', ''a'')], [(''id'', ''TC009''), (''email'', ''b'')], [(''email'', ''c'')]])
              ''login.csv'' = Inr t
          \<and> map tc_id (table_cases t) = [''TC001'', ''TC009'', ''TC003''])
   \<and> list_all (\<lambda>r. id_cell r = None) [[(''email'', ''a'')], [(''email'', ''c'')]]
   \<and> distinct (ids_of_rows [[(''email'', ''a'')], [(''email'', ''c'')]])
   \<and> ids_of_rows [[(''email'', ''a'')], [(''email'', ''c'')]] = [''TC001'', ''TC002'']"
  (is "?c1 \<and> ?c2 \<and> ?csv \<and> ?h \<and> ?d \<and> ?ids")
proof -
  let ?rows = "[[(''email'', ''a'')], [(''id'', ''TC009''), (''email'', ''b'')], [(''email'', ''c'')]]"
  let ?plain = "[[(''email'', ''a'')], [(''email'', ''c'')]]"
  have c1: ?c1 by (simp add: id_cell_def obj_get_def)
  have c2: ?c2 by (simp add: id_cell_def obj_get_def)
  have ids: "ids_of_rows ?rows = [''TC001'', ''TC009'', ''TC003'']"
    by (simp add: row_defs auto_id_small)
  note T = rows_get_ids [where rt = example_runtime and rows = ?rows and filePath = "''login.csv''"]
  from T [THEN conjunct1] ids have csv: ?csv by auto
  have h: ?h by (simp add: id_cell_def obj_get_def)
  note U = rows_get_ids [where rows = ?plain]
  from U [THEN conjunct2, THEN conjunct2, THEN conjunct2, THEN conjunct2, THEN conjunct2,
      THEN conjunct2, THEN conjunct1, THEN mp, OF h [unfolded list_all_iff]]
  have d: ?d .
  have i: ?ids by (simp add: row_defs auto_id_small)
  from c1 c2 csv h d i show ?thesis by (intro conjI)
qed

text \<open>
  C4 as the specification states it fails for ids: two tables in one document both start
  at \<open>TC001\<close>, and in a CSV file the id of one row can be the automatic id of another.
\<close>

theorem duplicate_ids_counterexample:
  "map_sum id (\<lambda>t. map tc_id (table_cases t))
     (parseMarkdown example_runtime
        [Table [''Email''] [[''a@example.com'']], Table [''Email''] [[''b@example.com'']]] ''two.md'')
     = Inr [''TC001'', ''TC001'']
   \<and> map_sum id (\<lambda>t. map tc_id (table_cases t))
     (parseCSV example_runtime
        (map plain_row [[(''id'', ''TC002''), (''email'', ''a@example.com'')],
                        [(''email'', ''b@example.com'')]]) ''one.csv'')
     = Inr [''TC002'', ''TC002'']"
proof -
  let ?tokens = "[Table [''Email''] [[''a@example.com'']], Table [''Email''] [[''b@example.com'']]]"
  from parseMarkdown_eq [of example_runtime ?tokens "''two.md''"]
  obtain t where p: "parseMarkdown example_runtime ?tokens ''two.md'' = Inr t"
    and c: "table_cases t =
        concat (map (\<lambda>rows. projr (convertRowsToTestCases example_runtime (map plain_row rows)))
                  (table_rows example_runtime ?tokens))"
    by auto
  have "map tc_id (table_cases t) = concat (map ids_of_rows (table_rows example_runtime ?tokens))"
    unfolding c by (rule markdown_ids)
  also have "\<dots> = [''TC001'', ''TC001'']"
    by (simp add: row_defs auto_id_small)
  finally have md: "map_sum id (\<lambda>t. map tc_id (table_cases t))
      (parseMarkdown example_runtime ?tokens ''two.md'') = Inr [''TC001'', ''TC001'']"
    by (simp add: p)
  have ids: "ids_of_rows [[(''id'', ''TC002''), (''email'', ''a@example.com'')],
                          [(''email'', ''b@example.com'')]] = [''TC002'', ''TC002'']"
    by (simp add: row_defs auto_id_small)
  have csv: "map_sum id (\<lambda>t. map tc_id (table_cases t))
     (parseCSV example_runtime
        (map plain_row [[(''id'', ''TC002''), (''email'', ''a@example.com'')],
                        [(''email'', ''b@example.com'')]]) ''one.csv'')
     = Inr [''TC002'', ''TC002'']"
    by (simp only: parseCSV_plain map_sum.simps decision_table.simps projr_rows_ids ids)
  from md csv show ?thesis by (intro conjI)
qed

subsection \<open>Priority and synthesized names\<close>

text \<open>
  C5, as the code has it. A row without surplus fields always converts. Whenever a row
  converts, its priority is what \<open>toLowerCase\<close> makes of the priority cell, whatever the
  cell says, and \<open>medium\<close> when the cell is absent or empty; a cell that \<open>toLowerCase\<close>
  leaves as it is passes through unchanged.
\<close>

theorem priority_is_lower_cased:
  "(\<exists>tc. convertRowToTestCase rt (plain_row r) i = Inr tc)
   \<and> (\<forall>tc. convertRowToTestCase rt rw i = Inr tc \<longrightarrow>
         tc_priority tc =
           Some (case obj_get (fst rw) ''priority'' of
                   None \<Rightarrow> ''medium''
                 | Some p \<Rightarrow> if toLowerCase rt p = [] then ''medium'' else toLowerCase rt p)
         \<and> (\<forall>p. obj_get (fst rw) ''priority'' = Some p \<and> p \<noteq> [] \<and> toLowerCase rt p = p \<longrightarrow>
               tc_priority tc = Some p))"
proof (intro conjI allI impI)
  show "\<exists>tc. convertRowToTestCase rt (plain_row r) i = Inr tc"
    by (rule convertRowToTestCase_total)
next
  fix tc assume "convertRowToTestCase rt rw i = Inr tc"
  then show "tc_priority tc =
           Some (case obj_get (fst rw) ''priority'' of
                   None \<Rightarrow> ''medium''
                 | Some p \<Rightarrow> if toLowerCase rt p = [] then ''medium'' else toLowerCase rt p)"
    by (rule convertRowToTestCase_priority)
next
  fix tc p
  assume tc: "convertRowToTestCase rt rw i = Inr tc"
    and p: "obj_get (fst rw) ''priority'' = Some p \<and> p \<noteq> [] \<and> toLowerCase rt p = p"
  from convertRowToTestCase_priority [OF tc] p show "tc_priority tc = Some p" by simp
qed

lemmas lower_defs = example_runtime_def to_lower_def upper_chars_def lower_chars_def

theorem priority_is_lower_cased_witness:
  "obj_get (fst (plain_row [(''email'', ''a@example.com''), (''priority'', ''urgent'')])) ''priority''
     = Some ''urgent''
   \<and> toLowerCase example_runtime ''urgent'' = ''urgent''
   \<and> (\<exists>tc. convertRowToTestCase example_runtime
               (plain_row [(''email'', ''a@example.com''), (''priority'', ''urgent'')]) 0 = Inr tc
          \<and> tc_priority tc = Some ''urgent'')
   \<and> (\<exists>tc. convertRowToTestCase example_runtime (plain_row [(''email'', ''a@example.com'')]) 0 = Inr tc
          \<and> tc_priority tc = Some ''medium'')"
  (is "?g \<and> ?u \<and> ?a \<and> ?b")
proof -
  let ?r = "[(''email'', ''a@example.com''), (''priority'', ''urgent'')]"
  let ?s = "[(''email'', ''a@example.com'')]"
  have g: ?g by (simp add: obj_get_def plain_row_def)
  have u: ?u by (simp add: lower_defs)
  note T = priority_is_lower_cased [where rt = example_runtime and r = ?r and rw = "plain_row ?r"
      and i = 0]
  from T [THEN conjunct1] obtain tc where
    tc: "convertRowToTestCase example_runtime (plain_row ?r) 0 = Inr tc" by blast
  from T [THEN conjunct2, rule_format, OF tc, THEN conjunct2, rule_format, of "''urgent''"] g u
  have "tc_priority tc = Some ''urgent''" by simp
  with tc have a: ?a by blast
  note U = priority_is_lower_cased [where rt = example_runtime and r = ?s and rw = "plain_row ?s"
      and i = 0]
  from U [THEN conjunct1] obtain tc' where
    tc': "convertRowToTestCase example_runtime (plain_row ?s) 0 = Inr tc'" by blast
  from U [THEN conjunct2, rule_format, OF tc', THEN conjunct1]
  have "tc_priority tc' = Some ''medium''" by (simp add: obj_get_def plain_row_def)
  with tc' have b: ?b by blast
  from g u a b show ?thesis by (intro conjI)
qed

text \<open>C5 as the specification states it fails for a priority with an upper-case letter.\<close>

theorem priority_rewritten_counterexample:
  "map_sum id tc_priority
     (convertRowToTestCase example_runtime
        (plain_row [(''email'', ''a@example.com''), (''priority'', ''Urgent'')]) 0)
   = Inr (Some ''urgent'')"
proof -
  obtain tc where tc: "convertRowToTestCase example_runtime
        (plain_row [(''email'', ''a@example.com''), (''priority'', ''Urgent'')]) 0 = Inr tc"
    using convertRowToTestCase_total by blast
  from convertRowToTestCase_priority [OF tc] have "tc_priority tc = Some ''urgent''"
    by (simp add: obj_get_def plain_row_def lower_defs)
  with tc show ?thesis by simp
qed


lemmas special_defs = specialColumns_def lower_defs trim_defs




text \<open>The name is made from the row, not from its conditions: structural columns among the
  first two entries appear in it.\<close>

lemma name_counts_special_columns_example:
  "map_sum id tc_name
     (convertRowToTestCase example_runtime
        (plain_row [(''id'', ''TC001''), (''name'', []), (''email'', ''a@b.c''), (''expected'', ''Shown'')]) 0)
   = Inr (''id: TC001, name:  '' @ name_separator @ '' Shown'')"
proof -
  let ?row = "[(''id'', ''TC001''), (''name'', []), (''email'', ''a@b.c''), (''expected'', ''Shown'')]"
  obtain tc where tc: "convertRowToTestCase example_runtime (plain_row ?row) 0 = Inr tc"
    using convertRowToTestCase_total by blast
  have e: "expected_cell ?row = ''Shown''"
    by (simp add: expected_cell_def obj_get_def or_else_def)
  have n: "name_cell ?row = None" by (simp add: name_cell_def obj_get_def)
  from convertRowToTestCase_name [OF tc]
  have "tc_name tc = ''id: TC001, name:  '' @ name_separator @ '' Shown''"
    by (simp add: n e row_name_def)
  with tc show ?thesis by simp
qed

subsection \<open>Rows with surplus fields\<close>

lemmas number_eval = Number_def trim_defs non_decimal_def radix_value_def hex_chars_def
  hex_value_def signed_decimal_def unsigned_decimal_def exponent_value_def mantissa_value_def
  all_digits_def is_digit_def digit_chars_def nat_of_digits_def digit_value_def scale_def negate_def
  Let_def

lemma bit_length_0: "bit_length 0 = 0"
  by (subst bit_length.simps) simp

lemma bit_length_1: "bit_length (Suc 0) = 1"
  by (subst bit_length.simps) (simp add: bit_length_0)

lemma bit_length_numeral: "bit_length (numeral k) = bit_length (numeral k div 2) + 1"
  by (subst bit_length.simps) simp

lemmas number_defs = number_eval to_double_def round_half_even_def floor_log2_def pow2_def
  bit_length_0 bit_length_1 bit_length_numeral

lemmas convert_defs = convertRowToTestCase_def generateTestName_def entries_def row_object_def
  row_conditions_def row_keys_def row_get_def cell_truthy_def parseValue_def parsed_extra_def
  plain_row_def obj_assign_def obj_defs or_else_def Let_def

text \<open>
  A row of a CSV file with one surplus field that is empty, as a line that ends in a comma
  gives: \<open>Number\<close> reads the array of the surplus fields as zero, \<open>parseValue\<close> calls its
  \<open>trim\<close>, and nothing is parsed. With the surplus fields \<open>x\<close> and \<open>y\<close> the array reads as
  no number and becomes a condition of the test case.
\<close>

lemma surplus_fields_example:
  "parseCSV example_runtime [([(''email'', ''a@b.c'')], Some [''''])] ''t.csv''
     = Inl (TypeError ''value.trim is not a function'')"
  "map_sum id (\<lambda>t. map (\<lambda>tc. (tc_name tc, tc_conditions tc)) (table_cases t))
     (parseCSV example_runtime [([(''email'', ''a@b.c'')], Some [''x'', ''y''])] ''t.csv'')
     = Inr [(''email: a@b.c, __parsed_extra: x,y'',
             [(''email'', JStr ''a@b.c''), (''__parsed_extra'', JArr [JStr ''x'', JStr ''y''])])]"
proof -
  have n1: "Number [] = Fin 0" by (simp add: number_defs)
  have n2: "Number ''x,y'' = NaN" by (simp add: number_defs)
  have n3: "Number ''a@b.c'' = NaN" by (simp add: number_defs)
  have k: "trim (toLowerCase example_runtime ''email'') \<notin> set specialColumns"
    "trim (toLowerCase example_runtime ''__parsed_extra'') \<notin> set specialColumns"
    by (simp_all add: special_defs)
  have sl: "split_list [] = []" by (simp add: split_list_def trim_defs)
  have c1: "convertRowToTestCase example_runtime ([(''email'', ''a@b.c'')], Some ['''']) 0
      = Inl (TypeError ''value.trim is not a function'')"
    by (simp add: convert_defs n1 n3 k)
  have c2: "convertRowToTestCase example_runtime ([(''email'', ''a@b.c'')], Some [''x'', ''y'']) 0
      = Inr \<lparr>tc_id = ''TC001'', tc_name = ''email: a@b.c, __parsed_extra: x,y'',
             tc_description = Some [],
             tc_conditions = [(''email'', JStr ''a@b.c''), (''__parsed_extra'', JArr [JStr ''x'', JStr ''y''])],
             tc_actions = [], tc_expected_results = [], tc_priority = Some ''medium'',
             tc_tags = Some []\<rparr>"
    by (simp add: convert_defs n2 n3 k auto_id_small sl)
  show "parseCSV example_runtime [([(''email'', ''a@b.c'')], Some [''''])] ''t.csv''
     = Inl (TypeError ''value.trim is not a function'')"
    by (simp add: parseCSV_def convertRowsToTestCases_def c1)
  show "map_sum id (\<lambda>t. map (\<lambda>tc. (tc_name tc, tc_conditions tc)) (table_cases t))
     (parseCSV example_runtime [([(''email'', ''a@b.c'')], Some [''x'', ''y''])] ''t.csv'')
     = Inr [(''email: a@b.c, __parsed_extra: x,y'',
             [(''email'', JStr ''a@b.c''), (''__parsed_extra'', JArr [JStr ''x'', JStr ''y''])])]"
    by (simp add: parseCSV_def convertRowsToTestCases_def c2)
qed

subsection \<open>Coercion of condition values\<close>

lemma digit_of_is_digit: "d < 10 \<Longrightarrow> is_digit (digit_of d)"
proof -
  assume "d < 10"
  then have "d \<in> {0, 1, 2, 3, 4, 5, 6, 7, 8, 9}" by auto
  then show ?thesis by (auto simp: is_digit_def digit_of_def digit_chars_def)
qed

lemma string_of_nat_digits: "list_all is_digit (string_of_nat n) \<and> string_of_nat n \<noteq> []"
proof (induction n rule: string_of_nat.induct)
  case (1 n)
  show ?case
  proof (cases "n < 10")
    case True
    have "string_of_nat n = [digit_of n]" using True by (simp add: string_of_nat.simps)
    with True show ?thesis by (simp add: digit_of_is_digit)
  next
    case False
    have "string_of_nat n = string_of_nat (n div 10) @ [digit_of (n mod 10)]"
      using False by (simp add: string_of_nat.simps)
    with False 1 show ?thesis by (simp add: digit_of_is_digit)
  qed
qed

lemma split_first_none: "\<forall>c \<in> set s. \<not> p c \<Longrightarrow> split_first p s = (s, None)"
  by (induction s) auto

lemma strip_start_none:
  assumes "s \<noteq> [] \<Longrightarrow> hd s \<notin> set (map hd ws)"
  shows "strip_start ws s = s"
proof -
  have "\<not> (w \<noteq> [] \<and> prefix w s)" if w: "w \<in> set ws" for w
  proof
    assume a: "w \<noteq> [] \<and> prefix w s"
    then obtain zs where s: "s = w @ zs" by (auto simp: prefix_def)
    with a have "s \<noteq> []" and "hd s = hd w" by auto
    with assms w show False by auto
  qed
  then have "find (\<lambda>w. w \<noteq> [] \<and> prefix w s) ws = None" by (simp add: find_None_iff)
  then show ?thesis by (subst strip_start.simps) simp
qed

lemma digit_not_space:
  "is_digit c \<Longrightarrow> c \<notin> set (map hd white_space)"
  "is_digit c \<Longrightarrow> c \<notin> set (map hd (map rev white_space))"
  by (auto simp: is_digit_def digit_chars_def white_space_def)

lemma trim_digits: "list_all is_digit s \<Longrightarrow> trim s = s"
proof -
  assume d: "list_all is_digit s"
  have a: "strip_start white_space s = s"
  proof (rule strip_start_none)
    assume "s \<noteq> []"
    with d have "is_digit (hd s)" by (cases s) auto
    then show "hd s \<notin> set (map hd white_space)" by (rule digit_not_space)
  qed
  have b: "strip_start (map rev white_space) (rev s) = rev s"
  proof (rule strip_start_none)
    assume "rev s \<noteq> []"
    then have "s \<noteq> []" by simp
    with d have "is_digit (last s)" by (simp add: list_all_iff)
    with \<open>s \<noteq> []\<close> have "is_digit (hd (rev s))" by (simp add: hd_rev)
    then show "hd (rev s) \<notin> set (map hd (map rev white_space))" by (rule digit_not_space)
  qed
  show ?thesis by (simp add: trim_def a b)
qed

lemma digit_not_letter:
  "is_digit c \<Longrightarrow> c \<notin> set ''xXoObBeE.+-I''"
  by (auto simp: is_digit_def digit_chars_def)

lemma non_decimal_digits: "list_all is_digit s \<Longrightarrow> non_decimal s = None"
proof (cases s)
  case Nil
  then show ?thesis by (simp add: non_decimal_def)
next
  case (Cons c cs)
  assume d: "list_all is_digit s"
  show ?thesis
  proof (cases cs)
    case Nil
    with Cons show ?thesis by (simp add: non_decimal_def)
  next
    case (Cons e es)
    with d \<open>s = c # cs\<close> have "is_digit e" by simp
    from digit_not_letter [OF this] Cons \<open>s = c # cs\<close> show ?thesis
      by (simp add: non_decimal_def)
  qed
qed

lemma Number_digits:
  assumes "all_digits s"
  shows "Number s = to_double (nat_of_digits s) 1"
proof -
  from assms have d: "list_all is_digit s" and ne: "s \<noteq> []" by (simp_all add: all_digits_def)
  have nl: "\<forall>c \<in> set s. c \<notin> set ''xXoObBeE.+-I''"
  proof
    fix c assume "c \<in> set s"
    with d have "is_digit c" by (simp add: list_all_iff)
    then show "c \<notin> set ''xXoObBeE.+-I''" by (rule digit_not_letter)
  qed
  from ne obtain c cs where s: "s = c # cs" by (cases s) auto
  with nl have c: "c \<noteq> CHR ''+''" "c \<noteq> CHR ''-''" "c \<noteq> CHR ''I''" by auto
  from nl have e: "split_first (\<lambda>c. c = CHR ''e'' \<or> c = CHR ''E'') s = (s, None)"
    by (intro split_first_none) auto
  from nl have p: "split_first (\<lambda>c. c = CHR ''.'') s = (s, None)"
    by (intro split_first_none) auto
  from s c have i: "s \<noteq> ''Infinity''" by auto
  have m: "mantissa_value s = Some (nat_of_digits s, 0)"
    by (simp add: mantissa_value_def p assms)
  have u: "unsigned_decimal s = to_double (nat_of_digits s) 1"
    by (simp add: unsigned_decimal_def i e exponent_value_def m scale_def)
  have "signed_decimal s = to_double (nat_of_digits s) 1"
    using c(1,2) u by (simp add: signed_decimal_def s)
  then show ?thesis
    by (simp add: Number_def trim_digits [OF d] ne non_decimal_digits [OF d])
qed

text \<open>The binary digits of a number, and the integers that are doubles.\<close>

lemma bit_length_pos: "0 < n \<Longrightarrow> 0 < bit_length n"
  by (subst bit_length.simps) simp

lemma bit_length_upper: "n < 2 ^ bit_length n"
proof (induction n rule: bit_length.induct)
  case (1 n)
  show ?case
  proof (cases "n = 0")
    case True
    then show ?thesis by simp
  next
    case False
    with 1 have IH: "n div 2 < 2 ^ bit_length (n div 2)" by simp
    have b: "bit_length n = bit_length (n div 2) + 1"
      using False by (subst bit_length.simps) simp
    from IH have "n < 2 * 2 ^ bit_length (n div 2)" by linarith
    then show ?thesis unfolding b by simp
  qed
qed

lemma bit_length_lower: "0 < n \<Longrightarrow> 2 ^ (bit_length n - 1) \<le> n"
proof (induction n rule: bit_length.induct)
  case (1 n)
  then have n: "n \<noteq> 0" by simp
  have b: "bit_length n = bit_length (n div 2) + 1"
    using n by (subst bit_length.simps) simp
  show ?case
  proof (cases "n div 2 = 0")
    case True
    then show ?thesis using n by (simp add: b bit_length_0)
  next
    case False
    with 1 n have IH: "2 ^ (bit_length (n div 2) - 1) \<le> n div 2" by simp
    from False have "0 < bit_length (n div 2)" by (simp add: bit_length_pos)
    then have "(2::nat) ^ bit_length (n div 2) = 2 * 2 ^ (bit_length (n div 2) - 1)"
      by (cases "bit_length (n div 2)") simp_all
    with IH have "(2::nat) ^ bit_length (n div 2) \<le> n" by linarith
    then show ?thesis by (simp add: b)
  qed
qed

lemma to_double_exact:
  assumes "n < 2 ^ 53"
  shows "to_double n 1 = Fin (of_nat n)"
proof (cases "n = 0")
  case True
  then show ?thesis by (simp add: to_double_def)
next
  case False
  then have pos: "0 < n" by simp
  define k where "k = bit_length n - 1"
  from bit_length_pos [OF pos] have bl: "bit_length n = k + 1" by (simp add: k_def)
  from bit_length_lower [OF pos] have "(2::nat) ^ k \<le> n" by (simp add: k_def)
  with assms have "(2::nat) ^ k < 2 ^ 53" by linarith
  then have k: "k < 53" by (rule power_less_imp_less_exp [rotated]) simp
  have fl: "floor_log2 n 1 = int k"
    using pos by (simp add: floor_log2_def bl)
  have e: "max (int k) (- 1022) = int k" by simp
  have j: "nat (52 - int k) = 52 - k" by simp
  have m: "round_half_even x (Suc 0) = x" for x
    by (simp add: round_half_even_def)
  have p: "pow2 (int k - 52) = 1 / 2 ^ (52 - k)"
  proof (cases "k = 52")
    case True
    then show ?thesis by (simp add: pow2_def)
  next
    case False
    with k have "k < 52" by simp
    then have "nat (52 - int k) = 52 - k" and "\<not> 0 \<le> int k - 52" by simp_all
    then show ?thesis by (simp add: pow2_def)
  qed
  have le: "int k \<le> 52" using k by simp
  have no: "\<not> (1024 \<le> int k \<or> (int k = 1023 \<and> n * 2 ^ (52 - k) = 2 ^ 53))" using k by simp
  have "to_double n 1 = Fin (of_nat (n * 2 ^ (52 - k)) * pow2 (int k - 52))"
    unfolding to_double_def fl e Let_def using False le no by (simp add: j m)
  also have "of_nat (n * 2 ^ (52 - k)) * pow2 (int k - 52) = (of_nat n :: rat)"
    by (simp add: p)
  finally show ?thesis .
qed

lemma to_double_overflow:
  assumes "2 ^ 1024 \<le> p"
  shows "to_double p 1 = Infinity False"
proof -
  from assms have pos: "0 < p" by (cases "p = 0") simp_all
  from assms bit_length_upper [of p] have "(2::nat) ^ 1024 < 2 ^ bit_length p" by linarith
  then have "1024 < bit_length p" by (rule power_less_imp_less_exp [rotated]) simp
  then have "1024 \<le> floor_log2 p 1" using pos by (simp add: floor_log2_def)
  then show ?thesis using pos by (simp add: to_double_def Let_def)
qed

lemma bit_length_greater: "2 ^ k \<le> n \<Longrightarrow> k < bit_length n"
proof -
  assume "2 ^ k \<le> n"
  with bit_length_upper [of n] have "(2::nat) ^ k < 2 ^ bit_length n" by linarith
  then show ?thesis by (rule power_less_imp_less_exp [rotated]) simp
qed

lemma to_double_underflow:
  assumes "0 < p" and "p * 2 ^ 1076 < q"
  shows "to_double p q = Fin 0"
proof -
  from assms have pq: "\<not> q \<le> p"
  proof -
    have "p * 1 \<le> p * 2 ^ 1076" by (rule mult_le_mono2) simp
    with assms(2) show ?thesis by simp
  qed
  from assms(2) have "p * 2 ^ 1076 \<le> q - 1" by simp
  then have "p * 2 ^ 1076 div p \<le> (q - 1) div p" by (rule div_le_mono)
  with assms(1) have "2 ^ 1076 \<le> (q - 1) div p" by simp
  then have "1076 < bit_length ((q - 1) div p)" by (rule bit_length_greater)
  then have "floor_log2 p q < - 1022" using pq by (simp add: floor_log2_def)
  then have e: "max (floor_log2 p q) (- 1022) = - 1022" by simp
  have "(2::nat) ^ 1076 = 4 * 2 ^ 1074" by simp
  with assms(2) have small: "2 * (p * 2 ^ 1074) < q" by simp
  then have "p * 2 ^ 1074 < q" by simp
  then have "(p * 2 ^ 1074) div q = 0" "(p * 2 ^ 1074) mod q = p * 2 ^ 1074" by simp_all
  with small have m: "round_half_even (p * 2 ^ 1074) q = 0"
    by (simp add: round_half_even_def Let_def)
  have n: "nat (52 - (- 1022)) = 1074" by simp
  show ?thesis
    unfolding to_double_def e Let_def using assms(1) by (simp only: n m) simp
qed

text \<open>Some literals and the doubles \<open>Number\<close> reads them as.\<close>

lemma Number_examples:
  "Number ''0.1'' = Fin (3602879701896397 / 2 ^ 55)"
  "Number ''1e23'' = Fin 99999999999999991611392"
  "Number ''-0'' = NegZero"
  "Number ''0x10'' = Fin 16"
  "Number ''.5'' = Fin (1 / 2)"
  "Number ''5.'' = Fin 5"
  "Number ''-Infinity'' = Infinity True"
  "Number '' '' = Fin 0"
  "Number ''1,5'' = NaN"
  by (simp_all add: number_defs)

lemma Number_underflow: "Number ''1e-400'' = Fin 0" "Number ''-1e-400'' = NegZero"
proof -
  have "(1::nat) * 2 ^ 1076 < 10 ^ 400" by simp
  then have z: "to_double 1 (10 ^ 400) = Fin 0" by (intro to_double_underflow) simp_all
  have "Number ''1e-400'' = to_double 1 (10 ^ 400)" by (simp add: number_eval)
  with z show "Number ''1e-400'' = Fin 0" by simp
  have "Number ''-1e-400'' = negate (to_double 1 (10 ^ 400))" by (simp add: number_eval)
  with z show "Number ''-1e-400'' = NegZero" by (simp add: negate_def)
qed

lemma parseValue_numeral: "parseValue (Text (string_of_nat n)) = Inr (JNum (to_double n 1))"
proof -
  let ?s = "string_of_nat n"
  have a: "all_digits ?s" using string_of_nat_digits [of n] by (simp add: all_digits_def)
  then obtain c cs where s: "?s = c # cs" and "is_digit c"
    by (cases ?s) (auto simp: all_digits_def)
  then have "c \<notin> set ''tfnu''" by (auto simp: is_digit_def digit_chars_def)
  with s have k: "?s \<noteq> ''true''" "?s \<noteq> ''false''" "?s \<noteq> ''null''" "?s \<noteq> ''undefined''"
    by auto
  have t: "trim ?s = ?s" using a by (simp add: trim_digits all_digits_def)
  have n: "Number ?s = to_double n 1"
    by (simp add: Number_digits [OF a] nat_of_digits_string_of_nat)
  have "to_double n 1 \<noteq> NaN" by (simp add: to_double_def Let_def)
  moreover have "trim ?s \<noteq> []" using t s by simp
  ultimately show ?thesis
    using k n unfolding parseValue_def by simp
qed

text \<open>
  C6. \<open>parseValue\<close> maps the four words to \<open>true\<close>, \<open>false\<close>, \<open>null\<close> and \<open>undefined\<close>, the
  text \<open>42\<close> to the number 42 and \<open>99.99\<close> to the number 99.99 (the double nearest to it),
  and every decimal numeral to the double nearest to the number it denotes, which below
  \<open>2^53\<close> is that number. Any other text that \<open>Number\<close> reads as a number, and that is not
  blank, becomes that number; every other text is kept, and a value that is kept as a
  string is the text itself. No text makes \<open>parseValue\<close> throw.
\<close>

theorem parseValue_coercion:
  "parseValue (Text ''true'') = Inr (JBool True) \<and> parseValue (Text ''false'') = Inr (JBool False)
   \<and> parseValue (Text ''null'') = Inr JNull \<and> parseValue (Text ''undefined'') = Inr JUndefined
   \<and> parseValue (Text ''42'') = Inr (JNum (Fin 42))
   \<and> parseValue (Text ''99.99'') = Inr (JNum (Fin (7036170730324623 / 2 ^ 46)))
   \<and> parseValue (Text (string_of_nat n)) = Inr (JNum (to_double n 1))
   \<and> (n < 2 ^ 53 \<longrightarrow> parseValue (Text (string_of_nat n)) = Inr (JNum (Fin (of_nat n))))
   \<and> (v \<notin> {''true'', ''false'', ''null'', ''undefined''} \<longrightarrow>
        (Number v \<noteq> NaN \<and> trim v \<noteq> [] \<longrightarrow> parseValue (Text v) = Inr (JNum (Number v)))
        \<and> (Number v = NaN \<or> trim v = [] \<longrightarrow> parseValue (Text v) = Inr (JStr v)))
   \<and> (\<forall>s. parseValue (Text v) = Inr (JStr s) \<longrightarrow> s = v)
   \<and> (\<exists>x. parseValue (Text v) = Inr x)"
proof (intro conjI impI allI)
  show "parseValue (Text ''42'') = Inr (JNum (Fin 42))"
    by (simp add: parseValue_def number_defs)
next
  show "parseValue (Text ''99.99'') = Inr (JNum (Fin (7036170730324623 / 2 ^ 46)))"
    by (simp add: parseValue_def number_defs)
next
  show "parseValue (Text (string_of_nat n)) = Inr (JNum (to_double n 1))"
    by (rule parseValue_numeral)
next
  assume "n < 2 ^ 53"
  from to_double_exact [OF this]
  show "parseValue (Text (string_of_nat n)) = Inr (JNum (Fin (of_nat n)))"
    by (simp add: parseValue_numeral)
next
  fix s assume "parseValue (Text v) = Inr (JStr s)"
  then show "s = v" by (simp add: parseValue_def split: if_splits)
next
  show "\<exists>x. parseValue (Text v) = Inr x" by (rule parseValue_Text)
qed (simp_all add: parseValue_def)

theorem parseValue_coercion_witness:
  "''12px'' \<notin> {''true'', ''false'', ''null'', ''undefined''}
   \<and> Number ''12px'' = NaN
   \<and> parseValue (Text ''12px'') = Inr (JStr ''12px'')
   \<and> ''-1.5e2'' \<notin> {''true'', ''false'', ''null'', ''undefined''}
   \<and> Number ''-1.5e2'' = Fin (- 150) \<and> trim ''-1.5e2'' \<noteq> []
   \<and> parseValue (Text ''-1.5e2'') = Inr (JNum (Fin (- 150)))
   \<and> Number ''1e400'' = Infinity False \<and> trim ''1e400'' \<noteq> []
   \<and> parseValue (Text ''1e400'') = Inr (JNum (Infinity False))
   \<and> Number ([CHR 0xC2, CHR 0xA0] @ ''42'') = Fin 42 \<and> trim ([CHR 0xC2, CHR 0xA0] @ ''42'') \<noteq> []
   \<and> parseValue (Text ([CHR 0xC2, CHR 0xA0] @ ''42'')) = Inr (JNum (Fin 42))
   \<and> (42::nat) < 2 ^ 53
   \<and> parseValue (Text (string_of_nat 42)) = Inr (JNum (Fin 42))
   \<and> string_of_nat 9007199254740993 = ''9007199254740993''
   \<and> parseValue (Text ''9007199254740993'') = Inr (JNum (Fin 9007199254740992))
   \<and> \<bar>7036170730324623 / 2 ^ 46 - 9999 / 100\<bar> \<le> (1 / 2 ^ 47 :: rat)"
  (is "?k1 \<and> ?n1 \<and> ?p1 \<and> ?k2 \<and> ?n2 \<and> ?t2 \<and> ?p2 \<and> ?n3 \<and> ?t3 \<and> ?p3 \<and> ?n4 \<and> ?t4 \<and> ?p4
       \<and> ?b5 \<and> ?p5 \<and> ?s6 \<and> ?p6 \<and> ?near")
proof -
  have k1: ?k1 by simp
  have n1: ?n1 by (simp add: number_defs)
  have k2: ?k2 by simp
  have n2: ?n2 by (simp add: number_defs)
  have t2: ?t2 by (simp add: trim_defs)
  have "Number ''1e400'' = to_double (10 ^ 400) 1" by (simp add: number_eval)
  also have "\<dots> = Infinity False" by (rule to_double_overflow) simp
  finally have n3: ?n3 .
  have t3: ?t3 by (simp add: trim_defs)
  have k3: "''1e400'' \<notin> {''true'', ''false'', ''null'', ''undefined''}" by simp
  have n4: ?n4 by (simp add: number_defs)
  have t4: ?t4 by (simp add: trim_defs)
  have k4: "[CHR 0xC2, CHR 0xA0] @ ''42'' \<notin> {''true'', ''false'', ''null'', ''undefined''}" by simp
  have b5: ?b5 by simp
  have s6: ?s6 by (simp add: string_of_nat.simps digit_of_def digit_chars_def)
  have d6: "to_double 9007199254740993 1 = Fin 9007199254740992" by (simp add: number_defs)
  have near: ?near by simp
  note T1 = parseValue_coercion [where v = "''12px''", THEN conjunct2, THEN conjunct2,
      THEN conjunct2, THEN conjunct2, THEN conjunct2, THEN conjunct2, THEN conjunct2,
      THEN conjunct2, THEN conjunct1, THEN mp, OF k1]
  note T2 = parseValue_coercion [where v = "''-1.5e2''", THEN conjunct2, THEN conjunct2,
      THEN conjunct2, THEN conjunct2, THEN conjunct2, THEN conjunct2, THEN conjunct2,
      THEN conjunct2, THEN conjunct1, THEN mp, OF k2]
  note T3 = parseValue_coercion [where v = "''1e400''", THEN conjunct2, THEN conjunct2,
      THEN conjunct2, THEN conjunct2, THEN conjunct2, THEN conjunct2, THEN conjunct2,
      THEN conjunct2, THEN conjunct1, THEN mp, OF k3]
  note T4 = parseValue_coercion [where v = "[CHR 0xC2, CHR 0xA0] @ ''42''", THEN conjunct2,
      THEN conjunct2, THEN conjunct2, THEN conjunct2, THEN conjunct2, THEN conjunct2,
      THEN conjunct2, THEN conjunct2, THEN conjunct1, THEN mp, OF k4]
  note T5 = parseValue_coercion [where n = 42, THEN conjunct2, THEN conjunct2,
      THEN conjunct2, THEN conjunct2, THEN conjunct2, THEN conjunct2, THEN conjunct2,
      THEN conjunct1, THEN mp, OF b5]
  note T6 = parseValue_coercion [where n = 9007199254740993, THEN conjunct2, THEN conjunct2,
      THEN conjunct2, THEN conjunct2, THEN conjunct2, THEN conjunct2, THEN conjunct1]
  from T1 n1 have p1: ?p1 by simp
  from T2 n2 t2 have p2: ?p2 by simp
  from T3 n3 t3 have p3: ?p3 by simp
  from T4 n4 t4 have p4: ?p4 by simp
  from T5 have p5: ?p5 by simp
  from T6 s6 d6 have p6: ?p6 by simp
  from k1 n1 p1 k2 n2 t2 p2 n3 t3 p3 n4 t4 p4 b5 p5 s6 p6 near show ?thesis by (intro conjI)
qed

subsection \<open>JSON documents\<close>

lemma get_prop_field: "v \<noteq> JNull \<Longrightarrow> v \<noteq> JUndefined \<Longrightarrow> get_prop v k = Inr (field v k)"
  by (cases v) (simp_all add: get_prop_def field_def)

text \<open>
  C7 at the document \<open>null\<close>: it has neither of the two shapes, and \<open>parseJSON\<close> does not
  throw the error that names them; reading \<open>data.feature\<close> throws a \<open>TypeError\<close> first.
\<close>

theorem parseJSON_null_is_a_type_error:
  "parseJSON rt JNull filePath
     = Inl (TypeError (''Cannot read properties of null (reading '' @ quoted ''feature'' @ '')''))
   \<and> parseJSON rt JNull filePath \<noteq> Inl (Error invalid_json_format)"
  by (simp add: parseJSON_def get_prop_def)

lemma parseJSON_rules_not_an_array:
  "parseJSON rt (JObj [(''feature'', JStr ''Payments''), (''rules'', JStr ''none'')]) filePath
     = Inl (TypeError ''data.rules.map is not a function'')"
  by (simp add: parseJSON_def get_prop_def)

lemma parseJSON_as_is:
  assumes "truthy (field data ''feature'')" and "truthy (field data ''test_cases'')"
  shows "parseJSON rt data filePath = Inr (AsIs data)"
proof -
  from assms(1) have "data \<noteq> JNull" "data \<noteq> JUndefined" by (auto simp: field_def)
  then show ?thesis using assms by (simp add: parseJSON_def get_prop_field)
qed

lemma parseJSON_invalid:
  assumes "data \<noteq> JNull" and "data \<noteq> JUndefined"
    and "\<not> (truthy (field data ''feature'') \<and> truthy (field data ''test_cases''))"
    and "\<not> (truthy (field data ''feature'') \<and> truthy (field data ''rules''))"
  shows "parseJSON rt data filePath = Inl (Error invalid_json_format)"
  using assms by (auto simp: parseJSON_def get_prop_field)

lemma convertRule_not_null:
  assumes "rule \<noteq> JNull" and "rule \<noteq> JUndefined"
  shows "convertRule rt rule index =
     and_then (if truthy (field rule ''name'') then Inr (field rule ''name'')
               else and_then (generateTestName rt (field rule ''conditions'') (field rule ''expected''))
                      (\<lambda>n. Inr (JStr n)))
       (\<lambda>name. Inr \<lparr>rc_id = or_value (field rule ''id'') (JStr (auto_id index)),
            rc_name = name,
            rc_description = field rule ''description'',
            rc_conditions = field rule ''conditions'',
            rc_actions = or_value (field rule ''actions'') (JArr []),
            rc_expected_results = or_value (field rule ''expected'') (JArr []),
            rc_priority = or_value (field rule ''priority'') (JStr ''medium''),
            rc_tags = or_value (field rule ''tags'') (JArr [])\<rparr>)"
  unfolding convertRule_def get_prop_field [OF assms] and_then_simps ..

lemma convertRule_null:
  "convertRule rt JNull index \<noteq> Inr c" "convertRule rt JUndefined index \<noteq> Inr c"
  by (simp_all add: convertRule_def get_prop_def)

lemma convertRule_defaults:
  assumes "convertRule rt rule index = Inr c"
  shows "rc_id c = or_value (field rule ''id'') (JStr (auto_id index))
    \<and> rc_actions c = or_value (field rule ''actions'') (JArr [])
    \<and> rc_expected_results c = or_value (field rule ''expected'') (JArr [])
    \<and> rc_priority c = or_value (field rule ''priority'') (JStr ''medium'')
    \<and> rc_tags c = or_value (field rule ''tags'') (JArr [])
    \<and> rc_conditions c = field rule ''conditions'' \<and> rc_description c = field rule ''description''
    \<and> truthy (rc_id c)"
proof -
  from assms have n: "rule \<noteq> JNull" "rule \<noteq> JUndefined"
    using convertRule_null by auto
  have t: "truthy (or_value (field rule ''id'') (JStr (auto_id index)))"
    by (simp add: or_value_def auto_id_def)
  from assms obtain name where
    "c = \<lparr>rc_id = or_value (field rule ''id'') (JStr (auto_id index)),
            rc_name = name,
            rc_description = field rule ''description'',
            rc_conditions = field rule ''conditions'',
            rc_actions = or_value (field rule ''actions'') (JArr []),
            rc_expected_results = or_value (field rule ''expected'') (JArr []),
            rc_priority = or_value (field rule ''priority'') (JStr ''medium''),
            rc_tags = or_value (field rule ''tags'') (JArr [])\<rparr>"
    unfolding convertRule_not_null [OF n] and_then_def by (auto split: sum.splits)
  with t show ?thesis by simp
qed

lemma parseJSON_rules:
  assumes "truthy (field data ''feature'')" and "\<not> truthy (field data ''test_cases'')"
    and "field data ''rules'' = JArr rules"
    and "parseJSON rt data filePath = Inr r"
  shows "\<exists>t. r = FromRules t \<and> rules_feature t = field data ''feature''
     \<and> rules_description t = field data ''description''
     \<and> length (rules_cases t) = length rules
     \<and> (\<forall>i < length rules. convertRule rt (rules ! i) i = Inr (rules_cases t ! i))
     \<and> rules_metadata t = \<lparr>md_source = filePath, md_format = Json, md_row_count = None\<rparr>"
proof -
  from assms(1) have n: "data \<noteq> JNull" "data \<noteq> JUndefined" by (auto simp: field_def)
  let ?rs = "map (\<lambda>(rule, index). convertRule rt rule index) (zip rules [0 ..< length rules])"
  from assms n obtain cs where cs: "sequence ?rs = Inr cs"
    and r: "r = FromRules \<lparr>rules_feature = field data ''feature'',
        rules_description = field data ''description'', rules_cases = cs,
        rules_metadata = \<lparr>md_source = filePath, md_format = Json, md_row_count = None\<rparr>\<rparr>"
    by (auto simp: parseJSON_def get_prop_field and_then_def split: sum.splits)
  from sequence_Inr [OF cs] have "length cs = length rules"
    and "\<forall>i < length rules. convertRule rt (rules ! i) i = Inr (cs ! i)"
    by auto
  with r show ?thesis by simp
qed

end
